theory Spec2Isabelle
  imports Main "HOL-Library.Char_ord" "HOL-Library.List_Lexorder" "HOL-Library.Sublist"
begin

section \<open>Strings\<close>

text \<open>
  Python \<open>str\<close> values are modelled as \<open>string\<close>; a \<open>char\<close> stands for a code point
  below 256.  \<open>str.strip()\<close> and \<open>str.rstrip()\<close> without argument remove the characters
  for which \<open>str.isspace()\<close> holds; in that range these are the code points
  9 to 13, 28 to 32, 133 and 160.
\<close>

definition py_isspace :: "char \<Rightarrow> bool" where
  "py_isspace c =
     (let n = (of_char c :: nat)
      in (9 \<le> n \<and> n \<le> 13) \<or> (28 \<le> n \<and> n \<le> 32) \<or> n = 133 \<or> n = 160)"

definition lstrip :: "string \<Rightarrow> string" where
  "lstrip s = dropWhile py_isspace s"

definition rstrip :: "string \<Rightarrow> string" where
  "rstrip s = rev (dropWhile py_isspace (rev s))"

definition strip :: "string \<Rightarrow> string" where
  "strip s = rstrip (lstrip s)"

text \<open>\<open>sep.join(xs)\<close>\<close>

fun join :: "string \<Rightarrow> string list \<Rightarrow> string" where
  "join sep [] = []"
| "join sep [x] = x"
| "join sep (x # y # ys) = x @ sep @ join sep (y # ys)"

text \<open>\<open>str(n)\<close> for a length.\<close>

fun str_nat :: "nat \<Rightarrow> string" where
  "str_nat n =
     (if n < 10 then [char_of (48 + n)]
      else str_nat (n div 10) @ [char_of (48 + n mod 10)])"

section \<open>XML elements\<close>

text \<open>
  An \<open>xml.etree.ElementTree.Element\<close>: tag, attribute dictionary, \<open>text\<close> (here \<open>etext\<close>: the text before
  the first child, possibly \<open>None\<close>), \<open>tail\<close> (the text after the element's end tag,
  possibly \<open>None\<close>) and the children in document order.
\<close>

datatype elem =
  Element (tag: string) (attrib: "(string \<times> string) list")
          (etext: "string option") (tail: "string option") (children: "elem list")

text \<open>A string or \<open>None\<close> used as a condition: true for a non-empty string.\<close>

definition truthy :: "string option \<Rightarrow> bool" where
  "truthy t = (case t of None \<Rightarrow> False | Some s \<Rightarrow> s \<noteq> [])"

text \<open>\<open>elem.get(key, default)\<close>\<close>

definition get_attr :: "elem \<Rightarrow> string \<Rightarrow> string \<Rightarrow> string" where
  "get_attr e k d = (case map_of (attrib e) k of None \<Rightarrow> d | Some v \<Rightarrow> v)"

text \<open>\<open>elem.find(tag)\<close>, \<open>elem.findall(tag)\<close> for a plain tag: direct children only.\<close>

definition find_child :: "elem \<Rightarrow> string \<Rightarrow> elem option" where
  "find_child e t = List.find (\<lambda>c. tag c = t) (children e)"

definition findall :: "elem \<Rightarrow> string \<Rightarrow> elem list" where
  "findall e t = filter (\<lambda>c. tag c = t) (children e)"

text \<open>
  \<open>elem.findtext(tag)\<close> gives \<open>None\<close> when there is no such child and the empty string
  when the child's text is \<open>None\<close>; \<open>elem.findtext(tag, "")\<close> gives the empty string in both
  cases.
\<close>

definition findtext_opt :: "elem \<Rightarrow> string \<Rightarrow> string option" where
  "findtext_opt e t =
     (case find_child e t of
        None \<Rightarrow> None
      | Some c \<Rightarrow> (case etext c of None \<Rightarrow> Some [] | Some s \<Rightarrow> Some s))"

definition findtext :: "elem \<Rightarrow> string \<Rightarrow> string" where
  "findtext e t = (case findtext_opt e t of None \<Rightarrow> [] | Some s \<Rightarrow> s)"

text \<open>
  \<open>elem.iter()\<close>: the element and all its descendants in document order;
  \<open>elem.itertext()\<close>: all inner text in document order.  A path \<open>.//t[@kind='k']\<close>
  selects among the descendants proper.
\<close>

fun iter :: "elem \<Rightarrow> elem list"
  and iter_list :: "elem list \<Rightarrow> elem list" where
  "iter (Element t a tx ta cs) = Element t a tx ta cs # iter_list cs"
| "iter_list [] = []"
| "iter_list (c # cs) = iter c @ iter_list cs"

fun itertext :: "elem \<Rightarrow> string list"
  and itertext_list :: "elem list \<Rightarrow> string list" where
  "itertext (Element t a tx ta cs) =
     (if truthy tx then [the tx] else []) @ itertext_list cs"
| "itertext_list [] = []"
| "itertext_list (c # cs) =
     itertext c @ (if truthy (tail c) then [the (tail c)] else []) @ itertext_list cs"

definition findall_desc :: "elem \<Rightarrow> string \<Rightarrow> string \<Rightarrow> elem list" where
  "findall_desc e t k =
     filter (\<lambda>d. tag d = t \<and> map_of (attrib d) ''kind'' = Some k) (iter_list (children e))"

section \<open>The inline renderer and the list renderer\<close>

text \<open>
  \<open>_RenderInline\<close> collects \<open>parts\<close>: the element's text, then for every child the value
  \<open>rendered\<close> chosen by the child's tag and the child's tail.  \<open>_RenderList\<close> numbers the
  \<open>listitem\<close> children from 1.
\<close>

function RenderInline :: "elem \<Rightarrow> string"
  and RenderInline_parts :: "elem list \<Rightarrow> string list"
  and rendered :: "elem \<Rightarrow> string"
  and RenderList :: "elem \<Rightarrow> bool \<Rightarrow> string"
  and RenderList_lines :: "bool \<Rightarrow> nat \<Rightarrow> elem list \<Rightarrow> string list" where
  "RenderInline (Element t a tx ta cs) =
     concat ((if truthy tx then [the tx] else []) @ RenderInline_parts cs)"
| "RenderInline_parts [] = []"
| "RenderInline_parts (child # cs) =
     [rendered child] @ (if truthy (tail child) then [the (tail child)] else [])
       @ RenderInline_parts cs"
| "rendered (Element t a tx ta cs) =
     (let child = Element t a tx ta cs in
      if t \<in> {''parameterlist'', ''simplesect''} then []
      else if t \<in> {''computeroutput'', ''tt''} then ''`'' @ RenderInline child @ ''`''
      else if t = ''bold'' then ''**'' @ RenderInline child @ ''**''
      else if t = ''emphasis'' then ''*'' @ RenderInline child @ ''*''
      else if t = ''ref'' then RenderInline child
      else if t = ''ulink'' then
        (let label = RenderInline child; url = get_attr child ''url'' []
         in if url \<noteq> [] then ''['' @ label @ ''](''  @ url @ '')'' else label)
      else if t = ''linebreak'' then ''  \<newline>''
      else if t = ''itemizedlist'' then ''\<newline>'' @ RenderList child False @ ''\<newline>''
      else if t = ''orderedlist'' then ''\<newline>'' @ RenderList child True @ ''\<newline>''
      else RenderInline child)"
| "RenderList (Element t a tx ta cs) ordered = join ''\<newline>'' (RenderList_lines ordered 1 cs)"
| "RenderList_lines ordered idx [] = []"
| "RenderList_lines ordered idx (item # cs) =
     (if tag item = ''listitem'' then
        ((if ordered then str_nat idx @ ''.'' else ''-'') @ '' '' @ strip (RenderInline item))
          # RenderList_lines ordered (Suc idx) cs
      else RenderList_lines ordered idx cs)"
  by pat_completeness auto
termination
  by (relation "measure (\<lambda>x. case x of
        Inl (Inl e) \<Rightarrow> 2 * size e
      | Inl (Inr cs) \<Rightarrow> 2 * size_list size cs + 1
      | Inr (Inl e) \<Rightarrow> 2 * size e + 1
      | Inr (Inr (Inl (e, b))) \<Rightarrow> 2 * size e
      | Inr (Inr (Inr (b, n, cs))) \<Rightarrow> 2 * size_list size cs + 1)") auto

section \<open>The block description renderer\<close>

definition RenderProgramlisting :: "elem \<Rightarrow> string" where
  "RenderProgramlisting e =
     (let lines = map (\<lambda>codeline. rstrip (concat (itertext codeline))) (findall e ''codeline'');
          code = rstrip (join ''\<newline>'' lines)
      in ''```cpp\<newline>'' @ code @ ''\<newline>```'')"

text \<open>The loop of \<open>_RenderDescription\<close> over the children, giving \<open>paragraphs\<close>.\<close>

fun RenderDescription_paragraphs :: "elem list \<Rightarrow> string list" where
  "RenderDescription_paragraphs [] = []"
| "RenderDescription_paragraphs (child # cs) =
     (if tag child = ''para'' then
        (let text = strip (RenderInline child) in if text \<noteq> [] then [text] else [])
      else if tag child = ''programlisting'' then [RenderProgramlisting child]
      else if tag child = ''itemizedlist'' then [RenderList child False]
      else if tag child = ''orderedlist'' then [RenderList child True]
      else [])
     @ RenderDescription_paragraphs cs"

definition RenderDescription :: "elem option \<Rightarrow> string" where
  "RenderDescription el =
     (case el of
        None \<Rightarrow> []
      | Some e \<Rightarrow>
          join ''\<newline>\<newline>''
            (filter (\<lambda>p. p \<noteq> []) (RenderDescription_paragraphs (children e))))"

section \<open>The member renderer\<close>

definition WrapCard :: "string \<Rightarrow> string" where
  "WrapCard content =
     (if content = [] then []
      else join ''\<newline>''
             [''<div class=\"snapi-api-card\" markdown=\"1\">'', strip content, ''</div>''])"

text \<open>
  \<open>_ExtractParameters\<close>: the dictionary \<open>descriptions\<close> is filled from the
  \<open>parameteritem\<close> children of every \<open>parameterlist\<close> of kind \<open>param\<close> below the detailed
  description, a later entry replacing an earlier one of the same name; then every
  \<open>param\<close> child with a name gives a pair.
\<close>

definition parameter_names :: "elem \<Rightarrow> string list" where
  "parameter_names item =
     map (\<lambda>n. strip (the (etext n)))
       (filter (\<lambda>n. truthy (etext n))
          (concat (map (\<lambda>l. findall l ''parametername'') (findall item ''parameternamelist''))))"

definition parameter_items :: "elem \<Rightarrow> elem list" where
  "parameter_items detail =
     concat (map (\<lambda>pl. findall pl ''parameteritem'')
               (findall_desc detail ''parameterlist'' ''param''))"

definition add_descriptions :: "elem \<Rightarrow> (string \<rightharpoonup> string) \<Rightarrow> (string \<rightharpoonup> string)" where
  "add_descriptions item descriptions =
     (let names = parameter_names item;
          desc = RenderDescription (find_child item ''parameterdescription'')
      in fold (\<lambda>name d. d(name \<mapsto> desc)) names descriptions)"

definition parameter_descriptions :: "elem \<Rightarrow> (string \<rightharpoonup> string)" where
  "parameter_descriptions member =
     (case find_child member ''detaileddescription'' of
        None \<Rightarrow> Map.empty
      | Some detail \<Rightarrow> fold add_descriptions (parameter_items detail) Map.empty)"

definition param_name :: "elem \<Rightarrow> string" where
  "param_name param =
     (if truthy (findtext_opt param ''declname'') then the (findtext_opt param ''declname'')
      else if truthy (findtext_opt param ''defname'') then the (findtext_opt param ''defname'')
      else [])"

fun ExtractParameters_loop :: "(string \<rightharpoonup> string) \<Rightarrow> elem list \<Rightarrow> (string \<times> string) list" where
  "ExtractParameters_loop descriptions [] = []"
| "ExtractParameters_loop descriptions (param # ps) =
     (let name = param_name param in
      if name = [] then ExtractParameters_loop descriptions ps
      else (name, (case descriptions name of None \<Rightarrow> [] | Some d \<Rightarrow> d))
             # ExtractParameters_loop descriptions ps)"

definition ExtractParameters :: "elem \<Rightarrow> (string \<times> string) list" where
  "ExtractParameters member =
     ExtractParameters_loop (parameter_descriptions member) (findall member ''param'')"

definition ExtractReturn :: "elem \<Rightarrow> string" where
  "ExtractReturn member =
     (case find_child member ''detaileddescription'' of
        None \<Rightarrow> []
      | Some detail \<Rightarrow>
          RenderDescription
            (case findall_desc detail ''simplesect'' ''return'' of
               [] \<Rightarrow> None | return_desc # _ \<Rightarrow> Some return_desc))"

definition ExtractNotes :: "elem \<Rightarrow> string list" where
  "ExtractNotes member =
     (case find_child member ''detaileddescription'' of
        None \<Rightarrow> []
      | Some detail \<Rightarrow>
          filter (\<lambda>text. text \<noteq> [])
            (map (\<lambda>note. RenderDescription (Some note))
               (findall_desc detail ''simplesect'' ''note'')))"

text \<open>The \<open>values\<close> list of \<open>_RenderEnum\<close>.\<close>

fun enum_values :: "elem list \<Rightarrow> string list" where
  "enum_values [] = []"
| "enum_values (enum_value # evs) =
     (let value_name = strip (findtext enum_value ''name'');
          value_brief = RenderDescription (find_child enum_value ''briefdescription'')
      in (if value_name \<noteq> [] then
            (if value_brief \<noteq> [] then [''- `'' @ value_name @ ''`: '' @ value_brief]
             else [''- `'' @ value_name @ ''`''])
          else []))
     @ enum_values evs"

definition RenderEnum_parts :: "elem \<Rightarrow> string list" where
  "RenderEnum_parts member =
     (let name = strip (findtext member ''name'');
          brief = RenderDescription (find_child member ''briefdescription'');
          detailed = RenderDescription (find_child member ''detaileddescription'');
          values = enum_values (findall member ''enumvalue'')
      in [''### `enum '' @ name @ ''`'', []]
         @ (if brief \<noteq> [] then [brief, []] else [])
         @ (if detailed \<noteq> [] then [detailed, []] else [])
         @ (if values \<noteq> [] then [''**Values**'', [], join ''\<newline>'' values, []] else []))"

definition RenderEnum :: "elem \<Rightarrow> string" where
  "RenderEnum member = WrapCard (join ''\<newline>'' (RenderEnum_parts member))"

definition member_signature :: "elem \<Rightarrow> string" where
  "member_signature member =
     (let definition = strip (findtext member ''definition'');
          args = strip (findtext member ''argsstring'')
      in if args \<noteq> [] then definition @ args
         else if definition \<noteq> [] then definition
         else strip (findtext member ''name''))"

definition RenderMember_parts :: "elem \<Rightarrow> string list" where
  "RenderMember_parts member =
     (let signature = member_signature member;
          brief = RenderDescription (find_child member ''briefdescription'');
          detailed = RenderDescription (find_child member ''detaileddescription'');
          params = ExtractParameters member;
          returns = ExtractReturn member;
          notes = ExtractNotes member
      in [''### `'' @ signature @ ''`'', []]
         @ (if brief \<noteq> [] then [brief, []] else [])
         @ (if detailed \<noteq> [] then [detailed, []] else [])
         @ (if params \<noteq> [] then
              [''**Parameters**'', []]
              @ map (\<lambda>(name, desc). ''- `'' @ name @ ''`: '' @ desc) params @ [[]]
            else [])
         @ (if returns \<noteq> [] then [''**Returns:** '' @ returns, []] else [])
         @ (if notes \<noteq> [] then
              [''**Notes**'', []] @ map (\<lambda>note. ''- '' @ note) notes @ [[]]
            else []))"

definition RenderMember :: "elem \<Rightarrow> string" where
  "RenderMember member = WrapCard (strip (join ''\<newline>'' (RenderMember_parts member)))"

definition RenderMembers :: "elem list \<Rightarrow> string" where
  "RenderMembers members =
     (let lines = map (\<lambda>member.
                    if get_attr member ''kind'' [] \<in> {''enum''} then RenderEnum member
                    else RenderMember member) members
      in join ''\<newline>'' (filter (\<lambda>line. line \<noteq> []) lines))"

section \<open>The compound renderer\<close>

record Compound =
  refid :: string
  kind :: string
  name :: string

text \<open>
  The input directory: the parsed root element of every XML file that exists in it, by
  file name.  Every file is taken to be well-formed XML.
\<close>

type_synonym xml_dir = "string \<Rightarrow> elem option"

definition titles :: "(string \<times> string) list" where
  "titles =
     [(''public-func'', ''Public Functions''),
      (''public-static-func'', ''Public Static Functions''),
      (''public-attrib'', ''Public Members''),
      (''public-static-attrib'', ''Public Static Members''),
      (''public-type'', ''Public Types''),
      (''protected-func'', ''Protected Functions''),
      (''protected-attrib'', ''Protected Members''),
      (''protected-type'', ''Protected Types''),
      (''private-func'', ''Private Functions''),
      (''private-attrib'', ''Private Members''),
      (''private-type'', ''Private Types''),
      (''friend'', ''Friends''),
      (''define'', ''Macros''),
      (''func'', ''Functions''),
      (''var'', ''Variables''),
      (''typedef'', ''Type Aliases''),
      (''enum'', ''Enumerations'')]"

text \<open>
  \<open>_SectionTitle\<close>.  The fallback is \<open>kind.replace("-", " ").title()\<close>; Python's
  \<open>str.title\<close> is the parameter \<open>title\<close> of the model.
\<close>

definition SectionTitle :: "(string \<Rightarrow> string) \<Rightarrow> string \<Rightarrow> string" where
  "SectionTitle title k =
     (case map_of titles k of
        Some t \<Rightarrow> t
      | None \<Rightarrow> title (map (\<lambda>c. if c = CHR ''-'' then CHR '' '' else c) k))"

fun RenderInner_lines :: "string \<Rightarrow> elem list \<Rightarrow> string list" where
  "RenderInner_lines label [] = []"
| "RenderInner_lines label (inner # cs) =
     (let name = (if truthy (etext inner) then strip (the (etext inner)) else [])
      in if name = [] then RenderInner_lines label cs
         else (''- **'' @ label @ '':** '' @ name) # RenderInner_lines label cs)"

definition RenderInner :: "elem \<Rightarrow> string" where
  "RenderInner compounddef =
     join ''\<newline>''
       (RenderInner_lines ''Namespace'' (findall compounddef ''innernamespace'')
        @ RenderInner_lines ''Type'' (findall compounddef ''innerclass''))"

fun RenderSections_output :: "(string \<Rightarrow> string) \<Rightarrow> elem list \<Rightarrow> string list" where
  "RenderSections_output title [] = []"
| "RenderSections_output title (section # cs) =
     (let rendered = RenderMembers (findall section ''memberdef'')
      in if rendered \<noteq> [] then
           [''## '' @ SectionTitle title (get_attr section ''kind'' []), [], rendered, []]
         else [])
     @ RenderSections_output title cs"

definition RenderSections :: "(string \<Rightarrow> string) \<Rightarrow> elem \<Rightarrow> string" where
  "RenderSections title compounddef =
     strip (join ''\<newline>'' (RenderSections_output title (findall compounddef ''sectiondef'')))"

definition RenderCompound_parts :: "(string \<Rightarrow> string) \<Rightarrow> Compound \<Rightarrow> elem \<Rightarrow> string list" where
  "RenderCompound_parts title compound compounddef =
     (let ttl = (if kind compound = ''file'' then ''File `'' @ name compound @ ''`''
                 else name compound);
          brief = RenderDescription (find_child compounddef ''briefdescription'');
          detailed = RenderDescription (find_child compounddef ''detaileddescription'');
          contents = RenderInner compounddef;
          members = RenderSections title compounddef
      in [''# '' @ ttl, []]
         @ (if brief \<noteq> [] then [brief, []] else [])
         @ (if detailed \<noteq> [] then [detailed, []] else [])
         @ (if contents \<noteq> [] then [''## Contents'', [], contents, []] else [])
         @ (if members \<noteq> [] then [members] else []))"

definition RenderCompound :: "(string \<Rightarrow> string) \<Rightarrow> xml_dir \<Rightarrow> Compound \<Rightarrow> string" where
  "RenderCompound title xml compound =
     (case xml (refid compound @ ''.xml'') of
        None \<Rightarrow>
          ''# '' @ name compound @ ''\<newline>\<newline>_Unable to locate XML for ''
            @ refid compound @ ''._\<newline>''
      | Some root \<Rightarrow>
          (case find_child root ''compounddef'' of
             None \<Rightarrow> ''# '' @ name compound @ ''\<newline>\<newline>_Empty compound definition._\<newline>''
           | Some compounddef \<Rightarrow>
               strip (join ''\<newline>'' (RenderCompound_parts title compound compounddef))
                 @ ''\<newline>''))"

section \<open>The catalog, the output directory and the run\<close>

datatype error = FileNotFoundError string

text \<open>The loop of \<open>_LoadIndex\<close> over the \<open>compound\<close> children of the index root.\<close>

fun LoadIndex_loop :: "elem list \<Rightarrow> Compound list" where
  "LoadIndex_loop [] = []"
| "LoadIndex_loop (compound # cs) =
     (let k = get_attr compound ''kind'' [];
          r = get_attr compound ''refid'' [];
          name_elem = find_child compound ''name'';
          n = (if name_elem \<noteq> None \<and> truthy (etext (the name_elem))
               then strip (the (etext (the name_elem))) else r)
      in if r = [] then LoadIndex_loop cs
         else \<lparr>refid = r, kind = k, name = n\<rparr> # LoadIndex_loop cs)"

definition LoadIndex :: "xml_dir \<Rightarrow> Compound list \<Rightarrow> error + Compound list" where
  "LoadIndex xml compounds =
     (case xml ''index.xml'' of
        None \<Rightarrow> Inl (FileNotFoundError ''index.xml'')
      | Some root \<Rightarrow> Inr (compounds @ LoadIndex_loop (findall root ''compound'')))"

text \<open>
  The output directory: whether it exists, its files by name, and the operations
  performed on it so far, oldest first.  File names are keys of a flat directory.
\<close>

datatype fs_op = Rmtree | Mkdir | WriteText string string

record out_dir =
  out_exists :: bool
  out_files :: "string \<rightharpoonup> string"
  out_log :: "fs_op list"

text \<open>
  \<open>shutil.rmtree\<close> removes the directory with its content;
  \<open>mkdir(parents=True, exist_ok=True)\<close> leaves an existing directory as it is and creates
  an empty one otherwise.
\<close>

definition rmtree :: "out_dir \<Rightarrow> out_dir" where
  "rmtree od =
     od\<lparr>out_exists := False, out_files := Map.empty, out_log := out_log od @ [Rmtree]\<rparr>"

definition mkdir :: "out_dir \<Rightarrow> out_dir" where
  "mkdir od =
     (if out_exists od then od\<lparr>out_log := out_log od @ [Mkdir]\<rparr>
      else od\<lparr>out_exists := True, out_files := Map.empty, out_log := out_log od @ [Mkdir]\<rparr>)"

definition PrepareOutput :: "out_dir \<Rightarrow> out_dir" where
  "PrepareOutput od = mkdir (if out_exists od then rmtree od else od)"

definition write_text :: "string \<Rightarrow> string \<Rightarrow> out_dir \<Rightarrow> out_dir" where
  "write_text f content od =
     od\<lparr>out_files := (out_files od)(f \<mapsto> content),
        out_log := out_log od @ [WriteText f content]\<rparr>"

definition renderable :: "Compound \<Rightarrow> bool" where
  "renderable c =
     (kind c \<in> {''class'', ''struct'', ''namespace'', ''file'', ''union'', ''concept''})"

fun WriteCompoundPages :: "(string \<Rightarrow> string) \<Rightarrow> xml_dir \<Rightarrow> Compound list \<Rightarrow> out_dir \<Rightarrow> out_dir" where
  "WriteCompoundPages title xml [] od = od"
| "WriteCompoundPages title xml (compound # cs) od =
     (if renderable compound then
        WriteCompoundPages title xml cs
          (write_text (refid compound @ ''.md'') (RenderCompound title xml compound) od)
      else WriteCompoundPages title xml cs od)"

definition render_list :: "Compound list \<Rightarrow> string" where
  "render_list items =
     (let lines = map (\<lambda>item. ''- ['' @ name item @ '']('' @ refid item @ ''.md)'') items
      in if lines \<noteq> [] then join ''\<newline>'' lines else ''_None_'')"

definition namespaces_of :: "Compound list \<Rightarrow> Compound list" where
  "namespaces_of compounds = sort_key name (filter (\<lambda>c. kind c = ''namespace'') compounds)"

definition types_of :: "Compound list \<Rightarrow> Compound list" where
  "types_of compounds =
     sort_key name
       (filter (\<lambda>c. kind c \<in> {''class'', ''struct'', ''union'', ''concept''}) compounds)"

definition files_of :: "Compound list \<Rightarrow> Compound list" where
  "files_of compounds = sort_key name (filter (\<lambda>c. kind c = ''file'') compounds)"

definition index_content :: "Compound list \<Rightarrow> string" where
  "index_content compounds =
     ''# API Reference\<newline>''
     @ ''\<newline>''
     @ ''This section is generated from Doxygen XML output and rendered inside MkDocs.\<newline>''
     @ ''\<newline>''
     @ ''- **Namespaces:** '' @ str_nat (length (namespaces_of compounds)) @ ''\<newline>''
     @ ''- **Types:** '' @ str_nat (length (types_of compounds)) @ ''\<newline>''
     @ ''- **Files:** '' @ str_nat (length (files_of compounds)) @ ''\<newline>''
     @ ''\<newline>''
     @ ''## Quick Index\<newline>''
     @ ''\<newline>''
     @ ''- [Namespaces](namespaces.md)\<newline>''
     @ ''- [Types](types.md)\<newline>''
     @ ''- [Files](files.md)\<newline>''"

definition WriteIndexes :: "Compound list \<Rightarrow> out_dir \<Rightarrow> out_dir" where
  "WriteIndexes compounds od =
     (let namespaces_content =
            ''# Namespaces\<newline>\<newline>'' @ render_list (namespaces_of compounds) @ ''\<newline>'';
          types_content = ''# Types\<newline>\<newline>'' @ render_list (types_of compounds) @ ''\<newline>'';
          files_content = ''# Files\<newline>\<newline>'' @ render_list (files_of compounds) @ ''\<newline>''
      in write_text ''files.md'' files_content
           (write_text ''types.md'' types_content
              (write_text ''namespaces.md'' namespaces_content
                 (write_text ''index.md'' (index_content compounds) od))))"

text \<open>
  \<open>Run\<close> on a generator as \<open>__init__\<close> leaves it, with no compounds.  The result is the
  exception raised, if any, and the output directory as the run leaves it.
\<close>

definition Run :: "(string \<Rightarrow> string) \<Rightarrow> xml_dir \<Rightarrow> out_dir \<Rightarrow> (error + unit) \<times> out_dir" where
  "Run title xml od =
     (case LoadIndex xml [] of
        Inl e \<Rightarrow> (Inl e, od)
      | Inr compounds \<Rightarrow>
          (Inr (),
           WriteIndexes compounds
             (WriteCompoundPages title xml compounds (PrepareOutput od))))"

section \<open>Notions used to state the properties\<close>

text \<open>The text or tail of an element as a string, \<open>None\<close> read as the empty string.\<close>

definition str_of :: "string option \<Rightarrow> string" where
  "str_of t = (case t of None \<Rightarrow> [] | Some s \<Rightarrow> s)"

text \<open>
  An element that the inline renderer shows with all its text: it is not one of the
  suppressed annotation nodes, not a list (whose items are trimmed), and a line break
  only when it has no text of its own.
\<close>

definition inline_markup :: "elem \<Rightarrow> bool" where
  "inline_markup d =
     (tag d \<notin> {''parameterlist'', ''simplesect'', ''itemizedlist'', ''orderedlist''}
      \<and> (if tag d = ''linebreak'' then itertext d = [] else True))"

definition inline_example :: elem where
  "inline_example =
     Element ''para'' [] (Some ''a '') None
       [Element ''bold'' [] (Some ''b'') (Some '' c '')
          [Element ''emphasis'' [] (Some ''d'') (Some ''e'') []],
        Element ''ulink'' [(''url'', ''u'')] (Some ''f'') (Some '' g'') []]"

text \<open>
  The choice of signature as the specification words it: definition and argument list
  when both are present, otherwise the definition alone, otherwise the declared name.
\<close>

definition spec_signature :: "elem \<Rightarrow> string" where
  "spec_signature member =
     (let definition = strip (findtext member ''definition'');
          args = strip (findtext member ''argsstring'')
      in if definition \<noteq> [] \<and> args \<noteq> [] then definition @ args
         else if definition \<noteq> [] then definition
         else strip (findtext member ''name''))"

text \<open>Example inputs.\<close>

definition member_args_only :: elem where
  "member_args_only =
     Element ''memberdef'' [(''kind'', ''function'')] None None
       [Element ''argsstring'' [] (Some ''(int x)'') None [],
        Element ''name'' [] (Some ''f'') None []]"

definition member_bare :: elem where
  "member_bare = Element ''memberdef'' [(''kind'', ''variable'')] None None []"

definition index_example :: elem where
  "index_example =
     Element ''doxygenindex'' [] None None
       [Element ''compound'' [(''refid'', ''x9''), (''kind'', ''struct'')] None None [],
        Element ''compound'' [(''refid'', ''t1''), (''kind'', ''class'')] None None
          [Element ''name'' [] (Some ''Gear'') None []]]"

definition detail_example :: elem where
  "detail_example =
     Element ''doxygen'' [] None None
       [Element ''compounddef'' [] None None
          [Element ''briefdescription'' [] None None
             [Element ''para'' [] (Some ''A gear.'') None []]]]"

definition xml_example :: xml_dir where
  "xml_example f =
     (if f = ''index.xml'' then Some index_example
      else if f = ''t1.xml'' then Some detail_example
      else None)"

definition compound_x9 :: Compound where
  "compound_x9 = \<lparr>refid = ''x9'', kind = ''struct'', name = ''x9''\<rparr>"

definition compound_t1 :: Compound where
  "compound_t1 = \<lparr>refid = ''t1'', kind = ''class'', name = ''Gear''\<rparr>"

definition od_empty :: out_dir where
  "od_empty = \<lparr>out_exists = False, out_files = Map.empty, out_log = []\<rparr>"

definition od_used :: out_dir where
  "od_used = \<lparr>out_exists = True, out_files = [''old.md'' \<mapsto> ''x''], out_log = []\<rparr>"

text \<open>
  The name and the annotation of an enumerator, and its bullet in the Values block: the
  name, followed by a colon and the annotation when there is one.
\<close>

definition enum_value_name :: "elem \<Rightarrow> string" where
  "enum_value_name ev = strip (findtext ev ''name'')"

definition enum_value_brief :: "elem \<Rightarrow> string" where
  "enum_value_brief ev = RenderDescription (find_child ev ''briefdescription'')"

definition enum_bullet :: "elem \<Rightarrow> string" where
  "enum_bullet ev =
     ''- `'' @ enum_value_name ev @ ''`''
     @ (if enum_value_brief ev \<noteq> [] then '': '' @ enum_value_brief ev else [])"

definition named_enumerators :: "elem \<Rightarrow> elem list" where
  "named_enumerators member =
     filter (\<lambda>ev. enum_value_name ev \<noteq> []) (findall member ''enumvalue'')"

text \<open>The brief and detailed prose of a member card, each followed by an empty line.\<close>

definition member_prose :: "elem \<Rightarrow> string list" where
  "member_prose member =
     (let brief = RenderDescription (find_child member ''briefdescription'');
          detailed = RenderDescription (find_child member ''detaileddescription'')
      in (if brief \<noteq> [] then [brief, []] else [])
         @ (if detailed \<noteq> [] then [detailed, []] else []))"

text \<open>Example: an enumeration whose only enumerator has no annotation.\<close>

definition enum_plain :: elem where
  "enum_plain =
     Element ''memberdef'' [(''kind'', ''enum'')] None None
       [Element ''name'' [] (Some ''E'') None [],
        Element ''enumvalue'' [] None None [Element ''name'' [] (Some ''A'') None []]]"

text \<open>Example: an enumeration with an annotated and an unannotated enumerator.\<close>

definition enum_mixed :: elem where
  "enum_mixed =
     Element ''memberdef'' [(''kind'', ''enum'')] None None
       [Element ''name'' [] (Some ''Color'') None [],
        Element ''enumvalue'' [] None None
          [Element ''name'' [] (Some ''Red'') None [],
           Element ''briefdescription'' [] None None
             [Element ''para'' [] (Some ''the red'') None []]],
        Element ''enumvalue'' [] None None [Element ''name'' [] (Some ''Blue'') None []]]"






text \<open>
  The free-text annotation matched by a parameter name: the description of the last
  \<open>parameteritem\<close>, in document order, that lists the name; none when no item lists it or
  the member has no detailed description.
\<close>

definition annotation_for :: "elem \<Rightarrow> string \<Rightarrow> string option" where
  "annotation_for member n =
     (case find_child member ''detaileddescription'' of
        None \<Rightarrow> None
      | Some detail \<Rightarrow>
          (case List.find (\<lambda>item. n \<in> set (parameter_names item))
                  (rev (parameter_items detail)) of
             None \<Rightarrow> None
           | Some item \<Rightarrow>
               Some (RenderDescription (find_child item ''parameterdescription''))))"

definition parameter_bullet :: "string \<times> string \<Rightarrow> string" where
  "parameter_bullet p = ''- `'' @ fst p @ ''`: '' @ snd p"

text \<open>Example: a function with parameters \<open>n\<close> and \<open>m\<close> of which only \<open>n\<close> is annotated.\<close>

definition member_spin :: elem where
  "member_spin =
     Element ''memberdef'' [(''kind'', ''function'')] None None
       [Element ''name'' [] (Some ''Spin'') None [],
        Element ''param'' [] None None [Element ''declname'' [] (Some ''n'') None []],
        Element ''param'' [] None None [Element ''type'' [] (Some ''int'') None []],
        Element ''param'' [] None None [Element ''declname'' [] (Some ''m'') None []],
        Element ''detaileddescription'' [] None None
          [Element ''para'' [] None None
             [Element ''parameterlist'' [(''kind'', ''param'')] None None
                [Element ''parameteritem'' [] None None
                   [Element ''parameternamelist'' [] None None
                      [Element ''parametername'' [] (Some ''n'') None []],
                    Element ''parameterdescription'' [] None None
                      [Element ''para'' [] (Some ''count'') None []]]]]]]"

text \<open>A text that ends with exactly one newline character.\<close>

definition ends_with_one_newline :: "string \<Rightarrow> bool" where
  "ends_with_one_newline s =
     (s \<noteq> [] \<and> last s = CHR ''\<newline>''
      \<and> (if butlast s = [] then True else last (butlast s) \<noteq> CHR ''\<newline>''))"

text \<open>
  The catalog entry made from one \<open>compound\<close> element of the index: its display name is
  the trimmed text of the \<open>name\<close> child when that child exists with a non-empty text, and
  the identity key otherwise.
\<close>

definition index_entry :: "elem \<Rightarrow> Compound" where
  "index_entry e =
     \<lparr>refid = get_attr e ''refid'' [],
      kind = get_attr e ''kind'' [],
      name = (case find_child e ''name'' of
                None \<Rightarrow> get_attr e ''refid'' []
              | Some n \<Rightarrow> if truthy (etext n) then strip (the (etext n))
                          else get_attr e ''refid'' [])\<rparr>"

text \<open>
  Example: an index with an entry without identity key, an entry without name and an
  entry whose name is empty.
\<close>

definition index_ghost :: elem where
  "index_ghost =
     Element ''doxygenindex'' [] None None
       [Element ''compound'' [(''refid'', []), (''kind'', ''class'')] None None
          [Element ''name'' [] (Some ''Ghost'') None []],
        Element ''compound'' [(''kind'', ''file'')] None None
          [Element ''name'' [] (Some ''NoKey'') None []],
        Element ''compound'' [(''refid'', ''x9''), (''kind'', ''struct'')] None None [],
        Element ''compound'' [(''refid'', ''n1''), (''kind'', ''namespace'')] None None
          [Element ''name'' [] None None []]]"

text \<open>
  The text that the inline renderer keeps of an element, in document order: the element's
  text, then for every child what is kept of the child followed by the child's tail.
  Nothing is kept of the inside of a suppressed annotation node or of a line break; of a
  list the trimmed kept text of every item is kept; of any other child all that is kept of
  it as an element.
\<close>

function kept :: "elem \<Rightarrow> string"
  and kept_children :: "elem list \<Rightarrow> string"
  and kept_child :: "elem \<Rightarrow> string"
  and kept_items :: "elem list \<Rightarrow> string" where
  "kept (Element t a tx ta cs) = str_of tx @ kept_children cs"
| "kept_children [] = []"
| "kept_children (c # cs) = kept_child c @ str_of (tail c) @ kept_children cs"
| "kept_child (Element t a tx ta cs) =
     (if t \<in> {''parameterlist'', ''simplesect'', ''linebreak''} then []
      else if t \<in> {''itemizedlist'', ''orderedlist''} then kept_items cs
      else kept (Element t a tx ta cs))"
| "kept_items [] = []"
| "kept_items (item # cs) =
     (if tag item = ''listitem'' then strip (kept item) else []) @ kept_items cs"
  by pat_completeness auto
termination
  by (relation "measure (\<lambda>x. case x of
        Inl (Inl e) \<Rightarrow> 2 * size e
      | Inl (Inr cs) \<Rightarrow> 2 * size_list size cs + 1
      | Inr (Inl e) \<Rightarrow> 2 * size e + 1
      | Inr (Inr cs) \<Rightarrow> 2 * size_list size cs + 1)") auto

text \<open>Examples: a paragraph holding a list, and one holding a suppressed section.\<close>

definition inline_list_example :: elem where
  "inline_list_example =
     Element ''para'' [] (Some ''a'') None
       [Element ''itemizedlist'' [] None (Some ''b'')
          [Element ''listitem'' [] (Some '' i '') None [],
           Element ''listitem'' [] None None
             [Element ''bold'' [] (Some ''j'') (Some '' '') []]],
        Element ''simplesect'' [(''kind'', ''note'')] (Some ''hidden'') (Some ''c'') []]"

text \<open>\<open>s.split("\n")\<close>: the lines of a text.\<close>

fun split_lines :: "string \<Rightarrow> string list" where
  "split_lines [] = [[]]"
| "split_lines (c # cs) =
     (if c = CHR ''\<newline>'' then [] # split_lines cs
      else (case split_lines cs of [] \<Rightarrow> [[c]] | l # ls \<Rightarrow> (c # l) # ls))"

text \<open>The lines of a text that start a Markdown bullet.\<close>

definition bullet_lines :: "string \<Rightarrow> string list" where
  "bullet_lines s = filter (\<lambda>l. take 2 l = ''- '') (split_lines s)"

text \<open>The parts of a member card that follow the Parameters section.\<close>

definition returns_notes :: "elem \<Rightarrow> string list" where
  "returns_notes member =
     (let returns = ExtractReturn member; notes = ExtractNotes member
      in (if returns \<noteq> [] then [''**Returns:** '' @ returns, []] else [])
         @ (if notes \<noteq> [] then [''**Notes**'', []] @ map (\<lambda>note. ''- '' @ note) notes @ [[]]
            else []))"

text \<open>Example: a function whose parameter description holds a text and a list.\<close>

definition member_listdesc :: elem where
  "member_listdesc =
     Element ''memberdef'' [(''kind'', ''function'')] None None
       [Element ''name'' [] (Some ''f'') None [],
        Element ''param'' [] None None [Element ''declname'' [] (Some ''n'') None []],
        Element ''detaileddescription'' [] None None
          [Element ''para'' [] None None
             [Element ''parameterlist'' [(''kind'', ''param'')] None None
                [Element ''parameteritem'' [] None None
                   [Element ''parameternamelist'' [] None None
                      [Element ''parametername'' [] (Some ''n'') None []],
                    Element ''parameterdescription'' [] None None
                      [Element ''para'' [] (Some ''x'') None
                         [Element ''itemizedlist'' [] None None
                            [Element ''listitem'' [] (Some ''i'') None [],
                             Element ''listitem'' [] (Some ''j'') None []]]]]]]]]"



section \<open>Facts about the inline renderer\<close>

lemma part_str_of: "concat (if truthy t then [the t] else []) = str_of t"
  by (cases t) (auto simp: truthy_def str_of_def)

lemma parts_concat:
  "concat (RenderInline_parts cs) = concat (map (\<lambda>c. rendered c @ str_of (tail c)) cs)"
  by (induction cs) (simp_all add: part_str_of)

lemma RenderInline_eq:
  "RenderInline e = str_of (etext e) @ concat (map (\<lambda>c. rendered c @ str_of (tail c)) (children e))"
  by (cases e) (simp add: parts_concat part_str_of)

lemma iter_self: "iter c = c # iter_list (children c)"
  by (cases c) simp

lemma rendered_unfold:
  "rendered c =
     (if tag c \<in> {''parameterlist'', ''simplesect''} then []
      else if tag c \<in> {''computeroutput'', ''tt''} then ''`'' @ RenderInline c @ ''`''
      else if tag c = ''bold'' then ''**'' @ RenderInline c @ ''**''
      else if tag c = ''emphasis'' then ''*'' @ RenderInline c @ ''*''
      else if tag c = ''ref'' then RenderInline c
      else if tag c = ''ulink'' then
        (if get_attr c ''url'' [] \<noteq> []
         then ''['' @ RenderInline c @ '']('' @ get_attr c ''url'' [] @ '')''
         else RenderInline c)
      else if tag c = ''linebreak'' then ''  \<newline>''
      else if tag c = ''itemizedlist'' then ''\<newline>'' @ RenderList c False @ ''\<newline>''
      else if tag c = ''orderedlist'' then ''\<newline>'' @ RenderList c True @ ''\<newline>''
      else RenderInline c)"
  by (cases c) (simp add: Let_def del: RenderInline.simps RenderList.simps)

section \<open>Facts about strings\<close>

lemma isspace_newline: "py_isspace CHR ''\<newline>''"
  by (simp add: py_isspace_def)

lemma rstrip_last: "rstrip s \<noteq> [] \<Longrightarrow> \<not> py_isspace (last (rstrip s))"
  unfolding rstrip_def
  by (simp add: last_rev hd_dropWhile)

lemma strip_last: "strip s \<noteq> [] \<Longrightarrow> \<not> py_isspace (last (strip s))"
  unfolding strip_def by (rule rstrip_last)

lemma dropWhile_snoc_keep: "\<not> P c \<Longrightarrow> \<exists>ys. dropWhile P (xs @ [c]) = ys @ [c]"
  by (cases "\<forall>x\<in>set xs. P x") (simp_all add: dropWhile_append)

lemma rstrip_Cons:
  assumes "\<not> py_isspace c"
  shows "\<exists>t. rstrip (c # s) = c # t"
proof -
  obtain ys where eq: "dropWhile py_isspace (rev s @ [c]) = ys @ [c]"
    using dropWhile_snoc_keep[of py_isspace c "rev s"] assms by blast
  have "rstrip (c # s) = rev (ys @ [c])"
    unfolding rstrip_def rev.simps eq ..
  then have "rstrip (c # s) = c # rev ys" by (simp only: rev_append rev.simps append.simps)
  then show ?thesis ..
qed

lemma strip_Cons:
  assumes "\<not> py_isspace c"
  shows "\<exists>t. strip (c # s) = c # t"
proof -
  have "lstrip (c # s) = c # s"
    using assms by (simp add: lstrip_def)
  then have "strip (c # s) = rstrip (c # s)"
    by (simp only: strip_def)
  with rstrip_Cons[OF assms, of s] show ?thesis by (simp only:)
qed

lemma not_isspace_hash: "\<not> py_isspace CHR ''#''"
  by (simp add: py_isspace_def)

section \<open>The member heading\<close>

lemma WrapCard_nonempty: "content \<noteq> [] \<Longrightarrow> WrapCard content \<noteq> []"
  by (simp add: WrapCard_def)

lemma RenderMember_parts_head:
  "\<exists>rest. RenderMember_parts m = (''### `'' @ member_signature m @ ''`'') # [] # rest"
  by (simp add: RenderMember_parts_def Let_def)

lemma RenderMember_nonempty: "RenderMember m \<noteq> []"
proof -
  obtain rest where r: "RenderMember_parts m = (''### `'' @ member_signature m @ ''`'') # [] # rest"
    using RenderMember_parts_head by blast
  have "\<exists>u. join ''\<newline>'' (RenderMember_parts m) = CHR ''#'' # u"
    unfolding r by simp
  then obtain u where u: "join ''\<newline>'' (RenderMember_parts m) = CHR ''#'' # u" by blast
  obtain t where "strip (CHR ''#'' # u) = CHR ''#'' # t"
    using strip_Cons[OF not_isspace_hash] by blast
  then show ?thesis
    unfolding RenderMember_def u by (simp add: WrapCard_nonempty)
qed

text \<open>
  C2, as the code has it: the signature in the heading of a member that is not an
  enumeration is the definition followed by the argument list whenever the argument list
  is non-empty (also when the definition is empty), otherwise the definition when it is
  non-empty, otherwise the declared name.  It is empty exactly when all three are empty
  after trimming; the heading line and the rendered card are never empty.
\<close>

theorem member_signature_choice:
  "member_signature m =
     (if strip (findtext m ''argsstring'') \<noteq> []
      then strip (findtext m ''definition'') @ strip (findtext m ''argsstring'')
      else if strip (findtext m ''definition'') \<noteq> [] then strip (findtext m ''definition'')
      else strip (findtext m ''name''))
   \<and> (member_signature m = []) =
       (strip (findtext m ''definition'') = [] \<and> strip (findtext m ''argsstring'') = []
        \<and> strip (findtext m ''name'') = [])
   \<and> hd (RenderMember_parts m) = ''### `'' @ member_signature m @ ''`''
   \<and> RenderMember m \<noteq> []"
proof -
  have "hd (RenderMember_parts m) = ''### `'' @ member_signature m @ ''`''"
    using RenderMember_parts_head[of m] by auto
  then show ?thesis
    using RenderMember_nonempty[of m] by (auto simp: member_signature_def Let_def)
qed

theorem member_signature_choice_witness:
  "member_signature member_args_only = ''(int x)''
   \<and> hd (RenderMember_parts member_args_only) = ''### `(int x)`''
   \<and> RenderMember member_args_only \<noteq> []"
  using member_signature_choice [of member_args_only]
  by (simp add: member_args_only_def findtext_def findtext_opt_def find_child_def
      strip_def lstrip_def rstrip_def py_isspace_def)

text \<open>
  C2 as stated fails: with an argument list and a name but no definition the code takes
  the argument list where the stated rule takes the name, and with none of the three the
  signature is empty.
\<close>

theorem member_signature_counterexample:
  "member_signature member_args_only = ''(int x)''
   \<and> spec_signature member_args_only = ''f''
   \<and> member_signature member_bare = []"
  by (simp add: member_signature_def spec_signature_def member_args_only_def member_bare_def
      findtext_def findtext_opt_def find_child_def
      strip_def lstrip_def rstrip_def py_isspace_def)

section \<open>The run\<close>

text \<open>
  C3: when the top-level index is absent the run raises and leaves the output directory
  as it was: no preparation and no write is performed.
\<close>

theorem Run_missing_index:
  "xml ''index.xml'' = None \<Longrightarrow> Run title xml od = (Inl (FileNotFoundError ''index.xml''), od)"
  by (simp add: Run_def LoadIndex_def)

theorem Run_missing_index_witness:
  "Run (\<lambda>s. s) (\<lambda>f. None) od_used = (Inl (FileNotFoundError ''index.xml''), od_used)
   \<and> out_log (snd (Run (\<lambda>s. s) (\<lambda>f. None) od_used)) = []
   \<and> out_files (snd (Run (\<lambda>s. s) (\<lambda>f. None) od_used)) ''old.md'' = Some ''x''"
  using Run_missing_index [of "\<lambda>f. None" "\<lambda>s. s" od_used]
  by (simp add: od_used_def)

lemma log_write_text: "out_log (write_text f c od) = out_log od @ [WriteText f c]"
  by (simp add: write_text_def)

lemma log_PrepareOutput:
  "out_log (PrepareOutput od) = out_log od @ (if out_exists od then [Rmtree] else []) @ [Mkdir]"
  by (simp add: PrepareOutput_def rmtree_def mkdir_def)

lemma log_WriteCompoundPages:
  "out_log (WriteCompoundPages title xml cs od) =
     out_log od @ map (\<lambda>c. WriteText (refid c @ ''.md'') (RenderCompound title xml c))
                    (filter renderable cs)"
  by (induction cs arbitrary: od) (simp_all add: log_write_text)

lemma log_WriteIndexes:
  "out_log (WriteIndexes cs od) =
     out_log od @
     [WriteText ''index.md'' (index_content cs),
      WriteText ''namespaces.md'' (''# Namespaces\<newline>\<newline>'' @ render_list (namespaces_of cs) @ ''\<newline>''),
      WriteText ''types.md'' (''# Types\<newline>\<newline>'' @ render_list (types_of cs) @ ''\<newline>''),
      WriteText ''files.md'' (''# Files\<newline>\<newline>'' @ render_list (files_of cs) @ ''\<newline>'')]"
  by (simp add: WriteIndexes_def Let_def log_write_text)

lemma Run_index_present:
  "xml ''index.xml'' = Some root \<Longrightarrow>
     Run title xml od =
       (Inr (), WriteIndexes (LoadIndex_loop (findall root ''compound''))
                  (WriteCompoundPages title xml (LoadIndex_loop (findall root ''compound''))
                     (PrepareOutput od)))"
  by (simp add: Run_def LoadIndex_def)

lemma log_Run:
  "xml ''index.xml'' = Some root \<Longrightarrow>
     out_log (snd (Run title xml od)) =
       out_log od @ (if out_exists od then [Rmtree] else []) @ [Mkdir]
       @ map (\<lambda>c. WriteText (refid c @ ''.md'') (RenderCompound title xml c))
           (filter renderable (LoadIndex_loop (findall root ''compound'')))
       @ [WriteText ''index.md'' (index_content (LoadIndex_loop (findall root ''compound''))),
          WriteText ''namespaces.md''
            (''# Namespaces\<newline>\<newline>''
               @ render_list (namespaces_of (LoadIndex_loop (findall root ''compound''))) @ ''\<newline>''),
          WriteText ''types.md''
            (''# Types\<newline>\<newline>''
               @ render_list (types_of (LoadIndex_loop (findall root ''compound''))) @ ''\<newline>''),
          WriteText ''files.md''
            (''# Files\<newline>\<newline>''
               @ render_list (files_of (LoadIndex_loop (findall root ''compound''))) @ ''\<newline>'')]"
  by (simp add: Run_index_present log_WriteIndexes log_WriteCompoundPages log_PrepareOutput)

lemma catalog_example:
  "LoadIndex_loop (findall index_example ''compound'') = [compound_x9, compound_t1]"
  by (simp add: index_example_def findall_def get_attr_def find_child_def truthy_def Let_def
      compound_x9_def compound_t1_def strip_def lstrip_def rstrip_def py_isspace_def)

text \<open>
  C4: a compound whose detail record does not exist renders as the placeholder page, its
  title and the notice that the XML could not be located; the run does not raise, and the
  page of every renderable compound of the catalog is written.
\<close>

theorem missing_detail_record_placeholder:
  "xml (refid c @ ''.xml'') = None \<Longrightarrow>
     RenderCompound title xml c =
       ''# '' @ name c @ ''\<newline>\<newline>_Unable to locate XML for '' @ refid c @ ''._\<newline>''
     \<and> (\<forall>root. xml ''index.xml'' = Some root \<longrightarrow>
          fst (Run title xml od) = Inr ()
          \<and> (\<forall>c'\<in>set (LoadIndex_loop (findall root ''compound'')). renderable c' \<longrightarrow>
                WriteText (refid c' @ ''.md'') (RenderCompound title xml c')
                  \<in> set (out_log (snd (Run title xml od)))))"
proof (intro conjI allI impI ballI)
  assume "xml (refid c @ ''.xml'') = None"
  then show "RenderCompound title xml c =
       ''# '' @ name c @ ''\<newline>\<newline>_Unable to locate XML for '' @ refid c @ ''._\<newline>''"
    by (simp add: RenderCompound_def)
next
  fix root assume "xml ''index.xml'' = Some root"
  then show "fst (Run title xml od) = Inr ()"
    by (simp add: Run_index_present)
next
  fix root c'
  assume r: "xml ''index.xml'' = Some root"
    and c: "c' \<in> set (LoadIndex_loop (findall root ''compound''))" "renderable c'"
  show "WriteText (refid c' @ ''.md'') (RenderCompound title xml c')
          \<in> set (out_log (snd (Run title xml od)))"
    using c log_Run[of xml root title od] r by simp
qed

theorem missing_detail_record_placeholder_witness:
  "xml_example (refid compound_x9 @ ''.xml'') = None
   \<and> RenderCompound (\<lambda>s. s) xml_example compound_x9 =
       ''# x9\<newline>\<newline>_Unable to locate XML for x9._\<newline>''
   \<and> fst (Run (\<lambda>s. s) xml_example od_empty) = Inr ()
   \<and> WriteText ''x9.md'' ''# x9\<newline>\<newline>_Unable to locate XML for x9._\<newline>''
        \<in> set (out_log (snd (Run (\<lambda>s. s) xml_example od_empty)))
   \<and> WriteText ''t1.md'' (RenderCompound (\<lambda>s. s) xml_example compound_t1)
        \<in> set (out_log (snd (Run (\<lambda>s. s) xml_example od_empty)))"
proof -
  have h: "xml_example (refid compound_x9 @ ''.xml'') = None"
    by (simp add: xml_example_def compound_x9_def)
  have i: "xml_example ''index.xml'' = Some index_example"
    by (simp add: xml_example_def)
  have k: "renderable compound_x9" "renderable compound_t1"
    by (simp_all add: renderable_def compound_x9_def compound_t1_def)
  have n: "refid compound_x9 = ''x9''" "name compound_x9 = ''x9''" "refid compound_t1 = ''t1''"
    by (simp_all add: compound_x9_def compound_t1_def)
  from missing_detail_record_placeholder [of xml_example compound_x9 "\<lambda>s. s" od_empty] i k h
  show ?thesis
    by (auto simp add: catalog_example n)
qed

section \<open>Enumerations\<close>

text \<open>Definitions unfolded when a rendering is evaluated on a concrete element.\<close>

lemmas eval_defs =
  findtext_def findtext_opt_def find_child_def findall_def get_attr_def truthy_def
  strip_def lstrip_def rstrip_def py_isspace_def Let_def

lemma enum_values_eq:
  "enum_values evs = map enum_bullet (filter (\<lambda>ev. enum_value_name ev \<noteq> []) evs)"
  by (induction evs)
     (simp_all add: Let_def enum_bullet_def enum_value_name_def enum_value_brief_def)

text \<open>
  C5, as the code has it: the card of an enumeration starts with the heading
  \<open>enum <name>\<close>, followed by the prose; the Values block has one bullet for each
  enumerator with a non-empty name, in order, a colon and the annotation following the
  name exactly when the annotation is non-empty; the block is left out exactly when no
  enumerator has a name.
\<close>

theorem RenderEnum_layout:
  "RenderEnum m =
     WrapCard (join ''\<newline>''
       ([''### `enum '' @ strip (findtext m ''name'') @ ''`'', []]
        @ member_prose m
        @ (if named_enumerators m = [] then []
           else [''**Values**'', [], join ''\<newline>'' (map enum_bullet (named_enumerators m)), []])))"
  by (simp add: RenderEnum_def RenderEnum_parts_def Let_def enum_values_eq member_prose_def
      named_enumerators_def)

theorem RenderEnum_layout_witness:
  "RenderEnum enum_mixed =
     ''<div class=\"snapi-api-card\" markdown=\"1\">\<newline>### `enum Color`\<newline>\<newline>**Values**\<newline>\<newline>- `Red`: the red\<newline>- `Blue`\<newline></div>''"
  using RenderEnum_layout [of enum_mixed]
  by (simp add: enum_mixed_def named_enumerators_def enum_bullet_def enum_value_name_def
      enum_value_brief_def member_prose_def RenderDescription_def WrapCard_def eval_defs)

text \<open>
  C5 as stated fails: an enumeration whose only enumerator has no annotation still gets
  its Values block.
\<close>

theorem RenderEnum_values_counterexample:
  "map enum_value_brief (findall enum_plain ''enumvalue'') = [[]]
   \<and> RenderEnum enum_plain =
       ''<div class=\"snapi-api-card\" markdown=\"1\">\<newline>### `enum E`\<newline>\<newline>**Values**\<newline>\<newline>- `A`\<newline></div>''"
  by (simp add: enum_plain_def RenderEnum_def RenderEnum_parts_def enum_value_brief_def
      RenderDescription_def WrapCard_def eval_defs)

section \<open>Unrecognized kinds\<close>


section \<open>Parameters\<close>

lemma fold_upd_const:
  "fold (\<lambda>name d. d(name \<mapsto> v)) names d n = (if n \<in> set names then Some v else d n)"
  by (induction names arbitrary: d) auto

lemma add_descriptions_apply:
  "add_descriptions item d n =
     (if n \<in> set (parameter_names item)
      then Some (RenderDescription (find_child item ''parameterdescription''))
      else d n)"
  unfolding add_descriptions_def Let_def by (rule fold_upd_const)

lemma fold_add_descriptions:
  "fold add_descriptions items d n =
     (case List.find (\<lambda>item. n \<in> set (parameter_names item)) (rev items) of
        None \<Rightarrow> d n
      | Some item \<Rightarrow> Some (RenderDescription (find_child item ''parameterdescription'')))"
proof (induction items rule: rev_induct)
  case Nil
  then show ?case by simp
next
  case (snoc x xs)
  then show ?case by (simp add: add_descriptions_apply)
qed

lemma parameter_descriptions_eq: "parameter_descriptions m n = annotation_for m n"
  by (simp add: parameter_descriptions_def annotation_for_def fold_add_descriptions
      split: option.splits)

lemma ExtractParameters_loop_eq:
  "ExtractParameters_loop d ps =
     map (\<lambda>n. (n, case d n of None \<Rightarrow> [] | Some x \<Rightarrow> x))
       (filter (\<lambda>n. n \<noteq> []) (map param_name ps))"
  by (induction ps) (simp_all add: Let_def)

lemma ExtractParameters_eq:
  "ExtractParameters m =
     map (\<lambda>n. (n, case annotation_for m n of None \<Rightarrow> [] | Some x \<Rightarrow> x))
       (filter (\<lambda>n. n \<noteq> []) (map param_name (findall m ''param'')))"
  by (simp add: ExtractParameters_def ExtractParameters_loop_eq parameter_descriptions_eq)

section \<open>Output files\<close>

lemma one_newline_snoc:
  "ends_with_one_newline (t @ ''\<newline>'') = (if t = [] then True else last t \<noteq> CHR ''\<newline>'')"
  by (simp add: ends_with_one_newline_def butlast_append)

lemma one_newline_strip: "ends_with_one_newline (strip x @ ''\<newline>'')"
proof (cases "strip x = []")
  case True
  then show ?thesis by (simp add: ends_with_one_newline_def)
next
  case False
  then have "\<not> py_isspace (last (strip x))" by (rule strip_last)
  then have "last (strip x) \<noteq> CHR ''\<newline>''" using isspace_newline by auto
  with False show ?thesis by (simp add: one_newline_snoc)
qed

lemma one_newline_RenderCompound: "ends_with_one_newline (RenderCompound title xml c)"
proof (cases "xml (refid c @ ''.xml'')")
  case None
  have "ends_with_one_newline
     ((''# '' @ name c @ ''\<newline>\<newline>_Unable to locate XML for '' @ refid c @ ''._'') @ ''\<newline>'')"
    unfolding one_newline_snoc by simp
  with None show ?thesis by (simp add: RenderCompound_def)
next
  case (Some root)
  show ?thesis
  proof (cases "find_child root ''compounddef''")
    case None
    have "ends_with_one_newline
       ((''# '' @ name c @ ''\<newline>\<newline>_Empty compound definition._'') @ ''\<newline>'')"
      unfolding one_newline_snoc by simp
    with None Some show ?thesis by (simp add: RenderCompound_def)
  next
    case (Some compounddef)
    with \<open>xml (refid c @ ''.xml'') = Some root\<close> show ?thesis
      by (simp add: RenderCompound_def one_newline_strip)
  qed
qed

lemma join_nonempty: "xs \<noteq> [] \<Longrightarrow> last xs \<noteq> [] \<Longrightarrow> join sep xs \<noteq> []"
  by (induction sep xs rule: join.induct) auto

lemma last_join:
  "xs \<noteq> [] \<Longrightarrow> last xs \<noteq> [] \<Longrightarrow> last (join sep xs) = last (last xs)"
proof (induction sep xs rule: join.induct)
  case (1 sep)
  then show ?case by simp
next
  case (2 sep x)
  then show ?case by simp
next
  case (3 sep x y ys)
  from "3.prems" have p: "last (y # ys) \<noteq> []" by simp
  then have "join sep (y # ys) \<noteq> []" by (simp add: join_nonempty del: last.simps)
  then have "last (join sep (x # y # ys)) = last (join sep (y # ys))" by simp
  also have "\<dots> = last (last (y # ys))" using "3.IH" p by simp
  finally show ?case by simp
qed

lemma render_list_last: "render_list items \<noteq> [] \<and> last (render_list items) \<noteq> CHR ''\<newline>''"
proof (cases items rule: rev_cases)
  case Nil
  then show ?thesis by (simp add: render_list_def)
next
  case (snoc ys y)
  define lines where "lines = map (\<lambda>item. ''- ['' @ name item @ '']('' @ refid item @ ''.md)'') items"
  have l: "lines \<noteq> []" "last lines = ''- ['' @ name y @ '']('' @ refid y @ ''.md)''"
    using snoc by (simp_all add: lines_def)
  then have "last lines \<noteq> []" "last (last lines) = CHR '')''" by simp_all
  with l(1) have "join ''\<newline>'' lines \<noteq> []" "last (join ''\<newline>'' lines) = CHR '')''"
    by (simp_all add: join_nonempty last_join)
  moreover have "render_list items = join ''\<newline>'' lines"
    using l(1) by (simp add: render_list_def lines_def)
  ultimately show ?thesis by simp
qed

lemma one_newline_list: "ends_with_one_newline (h @ render_list items @ ''\<newline>'')"
proof -
  have "ends_with_one_newline ((h @ render_list items) @ ''\<newline>'')"
    unfolding one_newline_snoc using render_list_last[of items] by simp
  then show ?thesis by simp
qed

lemma one_newline_index: "ends_with_one_newline (index_content cs)"
proof -
  have "\<exists>t. index_content cs = (t @ '')'') @ ''\<newline>''"
    unfolding index_content_def by (rule exI[of _ "_ @ ''- [Files](files.md''"]) simp
  then obtain t where "index_content cs = (t @ '')'') @ ''\<newline>''" by blast
  then show ?thesis by (simp only: one_newline_snoc) simp
qed

lemma Run_index_absent: "xml ''index.xml'' = None \<Longrightarrow> snd (Run title xml od) = od"
  by (simp add: Run_def LoadIndex_def)

text \<open>
  C8: every file the run writes, a compound page, placeholders included, or one of the
  four index files, has a content that ends with exactly one newline character.
\<close>

theorem written_files_end_with_one_newline:
  assumes "WriteText f content \<in> set (out_log (snd (Run title xml od)))"
    and "WriteText f content \<notin> set (out_log od)"
  shows "ends_with_one_newline content"
proof (cases "xml ''index.xml''")
  case None
  with assms show ?thesis by (simp add: Run_index_absent[of xml title od])
next
  case (Some root)
  from assms(1) have "WriteText f content \<in> set (out_log od) \<union> set (if out_exists od then [Rmtree] else [])
      \<union> set [Mkdir]
      \<union> set (map (\<lambda>c. WriteText (refid c @ ''.md'') (RenderCompound title xml c))
           (filter renderable (LoadIndex_loop (findall root ''compound''))))
      \<union> set [WriteText ''index.md'' (index_content (LoadIndex_loop (findall root ''compound''))),
          WriteText ''namespaces.md''
            (''# Namespaces\<newline>\<newline>''
               @ render_list (namespaces_of (LoadIndex_loop (findall root ''compound''))) @ ''\<newline>''),
          WriteText ''types.md''
            (''# Types\<newline>\<newline>''
               @ render_list (types_of (LoadIndex_loop (findall root ''compound''))) @ ''\<newline>''),
          WriteText ''files.md''
            (''# Files\<newline>\<newline>''
               @ render_list (files_of (LoadIndex_loop (findall root ''compound''))) @ ''\<newline>'')]"
    unfolding log_Run[of xml root title od, OF Some] by (simp only: set_append Un_assoc)
  with assms(2) show ?thesis
    by (auto simp only: Un_iff set_map image_iff list.set insert_iff empty_iff fs_op.inject
        fs_op.distinct simp_thms
        intro: one_newline_RenderCompound one_newline_index one_newline_list
        split: if_splits)
qed

lemma log_example:
  "out_log (snd (Run (\<lambda>s. s) xml_example od_empty)) =
     [Mkdir,
      WriteText ''x9.md'' (RenderCompound (\<lambda>s. s) xml_example compound_x9),
      WriteText ''t1.md'' (RenderCompound (\<lambda>s. s) xml_example compound_t1),
      WriteText ''index.md'' (index_content [compound_x9, compound_t1]),
      WriteText ''namespaces.md''
        (''# Namespaces\<newline>\<newline>'' @ render_list (namespaces_of [compound_x9, compound_t1]) @ ''\<newline>''),
      WriteText ''types.md''
        (''# Types\<newline>\<newline>'' @ render_list (types_of [compound_x9, compound_t1]) @ ''\<newline>''),
      WriteText ''files.md''
        (''# Files\<newline>\<newline>'' @ render_list (files_of [compound_x9, compound_t1]) @ ''\<newline>'')]"
proof -
  have i: "xml_example ''index.xml'' = Some index_example"
    by (simp add: xml_example_def)
  have k: "renderable compound_x9" "renderable compound_t1"
    by (simp_all add: renderable_def compound_x9_def compound_t1_def)
  have n: "refid compound_x9 = ''x9''" "refid compound_t1 = ''t1''"
    by (simp_all add: compound_x9_def compound_t1_def)
  show ?thesis
    unfolding log_Run[of xml_example index_example "\<lambda>s. s" od_empty, OF i] catalog_example
    by (simp add: k n od_empty_def)
qed

lemma types_example: "types_of [compound_x9, compound_t1] = [compound_t1, compound_x9]"
  by (simp add: types_of_def compound_x9_def compound_t1_def)

theorem written_files_end_with_one_newline_witness:
  "WriteText ''types.md'' ''# Types\<newline>\<newline>- [Gear](t1.md)\<newline>- [x9](x9.md)\<newline>''
     \<in> set (out_log (snd (Run (\<lambda>s. s) xml_example od_empty)))
   \<and> WriteText ''types.md'' ''# Types\<newline>\<newline>- [Gear](t1.md)\<newline>- [x9](x9.md)\<newline>''
     \<notin> set (out_log od_empty)
   \<and> ends_with_one_newline ''# Types\<newline>\<newline>- [Gear](t1.md)\<newline>- [x9](x9.md)\<newline>''"
proof -
  have r: "render_list [compound_t1, compound_x9] = ''- [Gear](t1.md)\<newline>- [x9](x9.md)''"
    by (simp add: render_list_def compound_x9_def compound_t1_def)
  have a: "WriteText ''types.md'' ''# Types\<newline>\<newline>- [Gear](t1.md)\<newline>- [x9](x9.md)\<newline>''
     \<in> set (out_log (snd (Run (\<lambda>s. s) xml_example od_empty)))"
    unfolding log_example types_example r by simp
  have b: "WriteText ''types.md'' ''# Types\<newline>\<newline>- [Gear](t1.md)\<newline>- [x9](x9.md)\<newline>''
     \<notin> set (out_log od_empty)"
    by (simp add: od_empty_def)
  from written_files_end_with_one_newline [of "''types.md''" _ "\<lambda>s. s" xml_example od_empty, OF a b] a b
  show ?thesis by blast
qed

section \<open>Determinism\<close>

lemma files_write_text: "out_files (write_text f c od) = (out_files od)(f \<mapsto> c)"
  by (simp add: write_text_def)

lemma files_PrepareOutput: "out_files (PrepareOutput od) = Map.empty"
  by (simp add: PrepareOutput_def rmtree_def mkdir_def)

lemma files_WriteCompoundPages:
  "out_files (WriteCompoundPages title xml cs od) =
     fold (\<lambda>c m. if renderable c then m(refid c @ ''.md'' \<mapsto> RenderCompound title xml c) else m)
       cs (out_files od)"
  by (induction cs arbitrary: od) (simp_all add: files_write_text)

lemma files_WriteIndexes:
  "out_files (WriteIndexes cs od) =
     (out_files od)
       (''index.md'' \<mapsto> index_content cs,
        ''namespaces.md'' \<mapsto> ''# Namespaces\<newline>\<newline>'' @ render_list (namespaces_of cs) @ ''\<newline>'',
        ''types.md'' \<mapsto> ''# Types\<newline>\<newline>'' @ render_list (types_of cs) @ ''\<newline>'',
        ''files.md'' \<mapsto> ''# Files\<newline>\<newline>'' @ render_list (files_of cs) @ ''\<newline>'')"
  unfolding WriteIndexes_def Let_def files_write_text ..

lemma files_Run:
  assumes "xml ''index.xml'' = Some root"
  shows "out_files (snd (Run title xml od1)) = out_files (snd (Run title xml od2))"
proof -
  have r: "snd (Run title xml od) =
      WriteIndexes (LoadIndex_loop (findall root ''compound''))
        (WriteCompoundPages title xml (LoadIndex_loop (findall root ''compound''))
           (PrepareOutput od))" for od
    using Run_index_present[of xml root title od] assms by simp
  show ?thesis
    unfolding r files_WriteIndexes files_WriteCompoundPages files_PrepareOutput ..
qed

text \<open>
  C9: with the index present, the files a run leaves do not depend on what the output
  directory held before, so a second run on the same input leaves the same files; the
  operations are the preparation, then the pages of the renderable compounds in catalog
  order, then the four index files; and every index partition is sorted by display name
  and holds exactly the compounds of its kinds.
\<close>

theorem run_deterministic:
  assumes "xml ''index.xml'' = Some root"
  shows "out_files (snd (Run title xml od1)) = out_files (snd (Run title xml od2))
    \<and> out_files (snd (Run title xml (snd (Run title xml od1)))) = out_files (snd (Run title xml od1))
    \<and> out_log (snd (Run title xml od1)) =
        out_log od1 @ (if out_exists od1 then [Rmtree] else []) @ [Mkdir]
        @ map (\<lambda>c. WriteText (refid c @ ''.md'') (RenderCompound title xml c))
            (filter renderable (LoadIndex_loop (findall root ''compound'')))
        @ [WriteText ''index.md'' (index_content (LoadIndex_loop (findall root ''compound''))),
           WriteText ''namespaces.md''
             (''# Namespaces\<newline>\<newline>''
                @ render_list (namespaces_of (LoadIndex_loop (findall root ''compound''))) @ ''\<newline>''),
           WriteText ''types.md''
             (''# Types\<newline>\<newline>''
                @ render_list (types_of (LoadIndex_loop (findall root ''compound''))) @ ''\<newline>''),
           WriteText ''files.md''
             (''# Files\<newline>\<newline>''
                @ render_list (files_of (LoadIndex_loop (findall root ''compound''))) @ ''\<newline>'')]
    \<and> sorted (map name (namespaces_of cs)) \<and> sorted (map name (types_of cs))
    \<and> sorted (map name (files_of cs))
    \<and> set (namespaces_of cs) = {c \<in> set cs. kind c = ''namespace''}
    \<and> set (types_of cs) = {c \<in> set cs. kind c \<in> {''class'', ''struct'', ''union'', ''concept''}}
    \<and> set (files_of cs) = {c \<in> set cs. kind c = ''file''}"
proof (intro conjI)
  show "out_files (snd (Run title xml od1)) = out_files (snd (Run title xml od2))"
    using files_Run[of xml root title od1 od2] assms by simp
  show "out_files (snd (Run title xml (snd (Run title xml od1)))) = out_files (snd (Run title xml od1))"
    using files_Run[of xml root title "snd (Run title xml od1)" od1] assms by simp
  show "out_log (snd (Run title xml od1)) =
        out_log od1 @ (if out_exists od1 then [Rmtree] else []) @ [Mkdir]
        @ map (\<lambda>c. WriteText (refid c @ ''.md'') (RenderCompound title xml c))
            (filter renderable (LoadIndex_loop (findall root ''compound'')))
        @ [WriteText ''index.md'' (index_content (LoadIndex_loop (findall root ''compound''))),
           WriteText ''namespaces.md''
             (''# Namespaces\<newline>\<newline>''
                @ render_list (namespaces_of (LoadIndex_loop (findall root ''compound''))) @ ''\<newline>''),
           WriteText ''types.md''
             (''# Types\<newline>\<newline>''
                @ render_list (types_of (LoadIndex_loop (findall root ''compound''))) @ ''\<newline>''),
           WriteText ''files.md''
             (''# Files\<newline>\<newline>''
                @ render_list (files_of (LoadIndex_loop (findall root ''compound''))) @ ''\<newline>'')]"
    using log_Run[of xml root title od1] assms by (simp only:)
  show "sorted (map name (namespaces_of cs))" "sorted (map name (types_of cs))"
    "sorted (map name (files_of cs))"
    by (simp_all add: namespaces_of_def types_of_def files_of_def)
  show "set (namespaces_of cs) = {c \<in> set cs. kind c = ''namespace''}"
    "set (types_of cs) = {c \<in> set cs. kind c \<in> {''class'', ''struct'', ''union'', ''concept''}}"
    "set (files_of cs) = {c \<in> set cs. kind c = ''file''}"
    by (simp_all add: namespaces_of_def types_of_def files_of_def)
qed

theorem run_deterministic_witness:
  "xml_example ''index.xml'' = Some index_example
   \<and> out_files (snd (Run (\<lambda>s. s) xml_example od_empty))
       = out_files (snd (Run (\<lambda>s. s) xml_example od_used))
   \<and> sorted (map name (types_of [compound_x9, compound_t1]))"
proof -
  have i: "xml_example ''index.xml'' = Some index_example"
    by (simp add: xml_example_def)
  from run_deterministic [of xml_example index_example "\<lambda>s. s" od_empty od_used
      "[compound_x9, compound_t1]"] i
  show ?thesis by (simp only: simp_thms)
qed

section \<open>The catalog\<close>

lemma LoadIndex_loop_eq:
  "LoadIndex_loop es = map index_entry (filter (\<lambda>e. get_attr e ''refid'' [] \<noteq> []) es)"
  by (induction es) (auto simp: Let_def index_entry_def split: option.splits)

lemma LoadIndex_loop_refid: "c \<in> set (LoadIndex_loop es) \<Longrightarrow> refid c \<noteq> []"
  unfolding LoadIndex_loop_eq by (auto simp: index_entry_def)

lemma md_name: "r \<noteq> [] \<Longrightarrow> r @ ''.md'' \<noteq> ''.md''"
  by simp

text \<open>
  C10: the catalog holds one entry for each index element with a non-empty identity key,
  in order, and none for the others; so every compound of the catalog and of every index
  partition has a non-empty identity key, and the run writes no file named by an empty
  key.  An entry whose name element is absent or has no text is named by its identity
  key.
\<close>

theorem LoadIndex_skips_empty_refid:
  "LoadIndex_loop es = map index_entry (filter (\<lambda>e. get_attr e ''refid'' [] \<noteq> []) es)
   \<and> (\<forall>c\<in>set (LoadIndex_loop es). refid c \<noteq> [])
   \<and> (\<forall>c\<in>set (namespaces_of (LoadIndex_loop es)) \<union> set (types_of (LoadIndex_loop es))
          \<union> set (files_of (LoadIndex_loop es)). refid c \<noteq> [])
   \<and> (\<not> truthy (case find_child e ''name'' of None \<Rightarrow> None | Some n \<Rightarrow> etext n)
        \<longrightarrow> name (index_entry e) = get_attr e ''refid'' [])
   \<and> (xml ''index.xml'' = Some root \<longrightarrow>
        LoadIndex xml [] = Inr (LoadIndex_loop (findall root ''compound''))
        \<and> (WriteText ''.md'' content \<in> set (out_log (snd (Run title xml od)))
             \<longrightarrow> WriteText ''.md'' content \<in> set (out_log od)))"
proof (intro conjI impI ballI)
  show "LoadIndex_loop es = map index_entry (filter (\<lambda>e. get_attr e ''refid'' [] \<noteq> []) es)"
    by (rule LoadIndex_loop_eq)
next
  fix c assume "c \<in> set (LoadIndex_loop es)"
  then show "refid c \<noteq> []" by (rule LoadIndex_loop_refid)
next
  fix c assume "c \<in> set (namespaces_of (LoadIndex_loop es)) \<union> set (types_of (LoadIndex_loop es))
          \<union> set (files_of (LoadIndex_loop es))"
  then have "c \<in> set (LoadIndex_loop es)"
    by (auto simp: namespaces_of_def types_of_def files_of_def)
  then show "refid c \<noteq> []" by (rule LoadIndex_loop_refid)
next
  assume "\<not> truthy (case find_child e ''name'' of None \<Rightarrow> None | Some n \<Rightarrow> etext n)"
  then show "name (index_entry e) = get_attr e ''refid'' []"
    by (simp add: index_entry_def split: option.splits)
next
  assume "xml ''index.xml'' = Some root"
  then show "LoadIndex xml [] = Inr (LoadIndex_loop (findall root ''compound''))"
    by (simp add: LoadIndex_def)
next
  assume r: "xml ''index.xml'' = Some root"
    and w: "WriteText ''.md'' content \<in> set (out_log (snd (Run title xml od)))"
  have p: "WriteText ''.md'' content \<notin>
      set (map (\<lambda>c. WriteText (refid c @ ''.md'') (RenderCompound title xml c))
             (filter renderable (LoadIndex_loop (findall root ''compound''))))"
    using LoadIndex_loop_refid[of _ "findall root ''compound''"] by (auto dest: md_name)
  from w show "WriteText ''.md'' content \<in> set (out_log od)"
    using log_Run[of xml root title od] r p by (auto split: if_splits)
qed

lemma catalog_ghost:
  "LoadIndex_loop (findall index_ghost ''compound'') =
     [\<lparr>refid = ''x9'', kind = ''struct'', name = ''x9''\<rparr>,
      \<lparr>refid = ''n1'', kind = ''namespace'', name = ''n1''\<rparr>]"
  by code_simp

theorem LoadIndex_skips_empty_refid_witness:
  "LoadIndex_loop (findall index_ghost ''compound'') =
     [\<lparr>refid = ''x9'', kind = ''struct'', name = ''x9''\<rparr>,
      \<lparr>refid = ''n1'', kind = ''namespace'', name = ''n1''\<rparr>]
   \<and> list_all (\<lambda>c. refid c \<noteq> []) (LoadIndex_loop (findall index_ghost ''compound''))
   \<and> \<not> truthy (case find_child (Element ''compound'' [(''refid'', ''x9'')] None None []) ''name''
                of None \<Rightarrow> None | Some n \<Rightarrow> etext n)
   \<and> name (index_entry (Element ''compound'' [(''refid'', ''x9'')] None None [])) = ''x9''
   \<and> xml_example ''index.xml'' = Some index_example
   \<and> LoadIndex xml_example [] = Inr [compound_x9, compound_t1]"
proof -
  have i: "xml_example ''index.xml'' = Some index_example"
    by (simp add: xml_example_def)
  have t: "\<not> truthy (case find_child (Element ''compound'' [(''refid'', ''x9'')] None None []) ''name''
                of None \<Rightarrow> None | Some n \<Rightarrow> etext n)"
    by (simp add: find_child_def truthy_def)
  have g: "get_attr (Element ''compound'' [(''refid'', ''x9'')] None None []) ''refid'' [] = ''x9''"
    by (simp add: get_attr_def)
  note inst = LoadIndex_skips_empty_refid
    [of "findall index_ghost ''compound''" "Element ''compound'' [(''refid'', ''x9'')] None None []"
        xml_example index_example "[]" "\<lambda>s. s" od_empty]
  from inst t
  have "name (index_entry (Element ''compound'' [(''refid'', ''x9'')] None None []))
      = get_attr (Element ''compound'' [(''refid'', ''x9'')] None None []) ''refid'' []"
    by blast
  then have n: "name (index_entry (Element ''compound'' [(''refid'', ''x9'')] None None [])) = ''x9''"
    by (simp only: g)
  from inst i
  have "LoadIndex xml_example [] = Inr (LoadIndex_loop (findall index_example ''compound''))"
    by blast
  then have l: "LoadIndex xml_example [] = Inr [compound_x9, compound_t1]"
    by (simp only: catalog_example)
  have a: "list_all (\<lambda>c. refid c \<noteq> []) (LoadIndex_loop (findall index_ghost ''compound''))"
    unfolding catalog_ghost by simp
  from catalog_ghost a t n i l show ?thesis
    by (intro conjI)
qed

section \<open>Order of the rendered inline text\<close>

lemma dropWhile_subseq: "subseq a b \<Longrightarrow> subseq (dropWhile P a) (dropWhile P b)"
proof (induction rule: list_emb.induct)
  case (list_emb_Nil ys)
  then show ?case by simp
next
  case (list_emb_Cons xs ys y)
  show ?case
  proof (cases "P y")
    case True
    with list_emb_Cons show ?thesis by simp
  next
    case False
    have "subseq (dropWhile P xs) xs" using suffix_dropWhile by (rule suffix_imp_subseq)
    then have "subseq (dropWhile P xs) ys" using list_emb_Cons.hyps by (rule subseq_order.trans)
    then have "subseq (dropWhile P xs) (y # ys)" by (rule list_emb.list_emb_Cons)
    then show ?thesis using False by simp
  qed
next
  case (list_emb_Cons2 x y xs ys)
  then show ?case by (cases "P y") simp_all
qed

lemma subseq_rev_mono: "subseq a b \<Longrightarrow> subseq (rev a) (rev b)"
proof (induction rule: list_emb.induct)
  case (list_emb_Nil ys)
  then show ?case by simp
next
  case (list_emb_Cons xs ys y)
  then show ?case by (simp add: subseq_rev_drop_many)
next
  case (list_emb_Cons2 x y xs ys)
  then show ?case by simp
qed

lemma strip_subseq:
  assumes "subseq a b"
  shows "subseq (strip a) (strip b)"
proof -
  have "subseq (dropWhile py_isspace a) (dropWhile py_isspace b)"
    using assms by (rule dropWhile_subseq)
  then have "subseq (rev (dropWhile py_isspace a)) (rev (dropWhile py_isspace b))"
    by (rule subseq_rev_mono)
  then have "subseq (dropWhile py_isspace (rev (dropWhile py_isspace a)))
      (dropWhile py_isspace (rev (dropWhile py_isspace b)))"
    by (rule dropWhile_subseq)
  then have "subseq (rev (dropWhile py_isspace (rev (dropWhile py_isspace a))))
      (rev (dropWhile py_isspace (rev (dropWhile py_isspace b))))"
    by (rule subseq_rev_mono)
  then show ?thesis
    unfolding strip_def lstrip_def rstrip_def .
qed

lemma join_Cons: "join sep (x # xs) = x @ (if xs = [] then [] else sep @ join sep xs)"
  by (cases xs) simp_all

lemma kept_child_unfold:
  "kept_child c =
     (if tag c \<in> {''parameterlist'', ''simplesect'', ''linebreak''} then []
      else if tag c \<in> {''itemizedlist'', ''orderedlist''} then kept_items (children c)
      else kept c)"
  by (cases c) (simp del: kept.simps)

lemma RenderList_unfold:
  "RenderList c ordered = join ''\<newline>'' (RenderList_lines ordered 1 (children c))"
  by (cases c) simp

lemma kept_child_subseq:
  assumes k: "subseq (kept c) (RenderInline c)"
    and l: "\<And>ordered. subseq (kept_items (children c)) (RenderList c ordered)"
  shows "subseq (kept_child c) (rendered c)"
proof -
  have wrap: "\<And>p q. subseq (kept c) (p @ RenderInline c @ q)"
    using k by (simp add: subseq_drop_many subseq_rev_drop_many)
  have w1: "subseq (kept c) (''`'' @ RenderInline c @ ''`'')"
    and w2: "subseq (kept c) (''**'' @ RenderInline c @ ''**'')"
    and w3: "subseq (kept c) (''*'' @ RenderInline c @ ''*'')"
    and w4: "subseq (kept c) (''['' @ RenderInline c @ ''](''  @ get_attr c ''url'' [] @ '')'')"
    by (rule wrap)+
  have "subseq (kept_items (children c)) (RenderList c False @ ''\<newline>'')"
    using l[of False] by (rule subseq_rev_drop_many)
  then have l1: "subseq (kept_items (children c)) (''\<newline>'' @ RenderList c False @ ''\<newline>'')"
    by (rule subseq_drop_many)
  have "subseq (kept_items (children c)) (RenderList c True @ ''\<newline>'')"
    using l[of True] by (rule subseq_rev_drop_many)
  then have l2: "subseq (kept_items (children c)) (''\<newline>'' @ RenderList c True @ ''\<newline>'')"
    by (rule subseq_drop_many)
  consider (drop) "tag c \<in> {''parameterlist'', ''simplesect'', ''linebreak''}"
    | (lst) "tag c = ''itemizedlist''" | (olst) "tag c = ''orderedlist''"
    | (other) "tag c \<notin> {''parameterlist'', ''simplesect'', ''linebreak'', ''itemizedlist'', ''orderedlist''}"
    by blast
  then show ?thesis
  proof cases
    case drop
    then show ?thesis by (simp add: kept_child_unfold)
  next
    case lst
    then have "kept_child c = kept_items (children c)"
      and "rendered c = ''\<newline>'' @ RenderList c False @ ''\<newline>''"
      by (simp_all add: kept_child_unfold rendered_unfold)
    then show ?thesis using l1 by (simp only:)
  next
    case olst
    then have "kept_child c = kept_items (children c)"
      and "rendered c = ''\<newline>'' @ RenderList c True @ ''\<newline>''"
      by (simp_all add: kept_child_unfold rendered_unfold)
    then show ?thesis using l2 by (simp only:)
  next
    case other
    then have kc: "kept_child c = kept c" by (simp add: kept_child_unfold)
    from other show ?thesis
      unfolding kc rendered_unfold
      using w1 w2 w3 w4 k
      by (simp only: if_False if_True insert_iff empty_iff simp_thms de_Morgan_disj split: if_split)
  qed
qed

lemma kept_items_subseq:
  assumes "\<And>item. item \<in> set cs \<Longrightarrow> subseq (kept item) (RenderInline item)"
  shows "subseq (kept_items cs) (join ''\<newline>'' (RenderList_lines ordered idx cs))"
  using assms
proof (induction cs arbitrary: idx)
  case Nil
  show ?case by simp
next
  case (Cons item cs)
  have rest: "subseq (kept_items cs) (join ''\<newline>'' (RenderList_lines ordered i cs))" for i
  proof (rule Cons.IH)
    fix it assume "it \<in> set cs"
    then have "it \<in> set (item # cs)" by simp
    then show "subseq (kept it) (RenderInline it)" by (rule Cons.prems)
  qed
  show ?case
  proof (cases "tag item = ''listitem''")
    case False
    then have "kept_items (item # cs) = kept_items cs"
      and "RenderList_lines ordered idx (item # cs) = RenderList_lines ordered idx cs"
      by simp_all
    then show ?thesis using rest[of idx] by (simp only:)
  next
    case True
    define line where
      "line = (if ordered then str_nat idx @ ''.'' else ''-'') @ '' '' @ strip (RenderInline item)"
    define tl_lines where "tl_lines = RenderList_lines ordered (Suc idx) cs"
    have "item \<in> set (item # cs)" by simp
    then have "subseq (kept item) (RenderInline item)" by (rule Cons.prems)
    then have "subseq (strip (kept item)) (strip (RenderInline item))" by (rule strip_subseq)
    then have "subseq (strip (kept item)) ('' '' @ strip (RenderInline item))"
      by (rule subseq_drop_many)
    then have a: "subseq (strip (kept item)) line"
      unfolding line_def by (rule subseq_drop_many)
    have r: "subseq (kept_items cs) (join ''\<newline>'' tl_lines)"
      unfolding tl_lines_def by (rule rest)
    have b: "subseq (kept_items cs) (if tl_lines = [] then [] else ''\<newline>'' @ join ''\<newline>'' tl_lines)"
    proof (cases "tl_lines = []")
      case True
      with r show ?thesis by simp
    next
      case False
      have "subseq (kept_items cs) (''\<newline>'' @ join ''\<newline>'' tl_lines)"
        using r by (rule subseq_drop_many)
      with False show ?thesis by (simp only: if_False)
    qed
    have ab: "subseq (strip (kept item) @ kept_items cs)
        (line @ (if tl_lines = [] then [] else ''\<newline>'' @ join ''\<newline>'' tl_lines))"
      using a b by (rule list_emb_append_mono)
    have k: "kept_items (item # cs) = strip (kept item) @ kept_items cs"
      using True by simp
    have l: "RenderList_lines ordered idx (item # cs) = line # tl_lines"
      using True by (simp add: line_def tl_lines_def)
    show ?thesis
      unfolding k l join_Cons using ab .
  qed
qed

lemma kept_children_subseq:
  assumes "\<And>c. c \<in> set cs \<Longrightarrow> subseq (kept_child c) (rendered c)"
  shows "subseq (kept_children cs) (concat (RenderInline_parts cs))"
  using assms
proof (induction cs)
  case Nil
  then show ?case by simp
next
  case (Cons c cs)
  have 1: "subseq (kept_child c) (rendered c)" using Cons.prems by simp
  have 2: "subseq (kept_children cs) (concat (RenderInline_parts cs))" using Cons by simp
  have 3: "subseq (str_of (tail c)) (str_of (tail c))" by simp
  show ?case
    using list_emb_append_mono[OF 1 list_emb_append_mono[OF 3 2]]
    by (simp add: part_str_of)
qed

lemma RenderInline_text_parts:
  "RenderInline e = str_of (etext e) @ concat (RenderInline_parts (children e))"
  by (cases e) (simp add: truthy_def str_of_def split: option.splits)

lemma kept_subseq:
  "subseq (kept e) (RenderInline e)
   \<and> (\<forall>ordered idx. subseq (kept_items (children e))
          (join ''\<newline>'' (RenderList_lines ordered idx (children e))))"
proof (induction e)
  case (Element t a tx ta cs)
  have items: "subseq (kept_items cs) (join ''\<newline>'' (RenderList_lines ordered idx cs))"
    for ordered idx
    using Element by (intro kept_items_subseq) simp
  have "subseq (kept_child c) (rendered c)" if "c \<in> set cs" for c
  proof (rule kept_child_subseq)
    show "subseq (kept c) (RenderInline c)" using Element that by simp
    show "subseq (kept_items (children c)) (RenderList c ordered)" for ordered
      unfolding RenderList_unfold using Element that by simp
  qed
  then have "subseq (kept_children cs) (concat (RenderInline_parts cs))"
    by (rule kept_children_subseq)
  then have "subseq (str_of tx @ kept_children cs) (str_of tx @ concat (RenderInline_parts cs))"
    by (simp only: subseq_append')
  then have "subseq (kept (Element t a tx ta cs)) (RenderInline (Element t a tx ta cs))"
    by (simp only: kept.simps RenderInline_text_parts elem.sel)
  with items show ?case by simp
qed

lemma kept_eq: "kept e = str_of (etext e) @ concat (map (\<lambda>c. kept_child c @ str_of (tail c)) (children e))"
proof -
  have "kept_children cs = concat (map (\<lambda>c. kept_child c @ str_of (tail c)) cs)" for cs
    by (induction cs) simp_all
  then show ?thesis by (cases e) simp
qed

lemma kept_itertext:
  "list_all inline_markup (iter_list (children e)) \<longrightarrow> kept e = concat (itertext e)"
  "list_all inline_markup (iter_list cs) \<longrightarrow> kept_children cs = concat (itertext_list cs)"
proof (induction e and cs rule: itertext_itertext_list.induct)
  case (1 t a tx ta cs)
  then show ?case by (simp add: part_str_of)
next
  case 2
  then show ?case by simp
next
  case (3 c cs)
  show ?case
  proof
    assume a: "list_all inline_markup (iter_list (c # cs))"
    then have c: "inline_markup c" and d: "list_all inline_markup (iter_list (children c))"
      and r: "list_all inline_markup (iter_list cs)"
      by (simp_all add: iter_self)
    from d 3 have k: "kept c = concat (itertext c)" by simp
    have "kept_child c = concat (itertext c)"
    proof (cases "tag c = ''linebreak''")
      case True
      with c show ?thesis by (simp add: kept_child_unfold inline_markup_def)
    next
      case False
      with c k show ?thesis by (simp add: kept_child_unfold inline_markup_def)
    qed
    moreover from r 3 have "kept_children cs = concat (itertext_list cs)" by simp
    ultimately show "kept_children (c # cs) = concat (itertext_list (c # cs))"
      by (simp add: part_str_of)
  qed
qed

text \<open>
  C1: for every inline node, \<open>RenderInline\<close> is the node's leading text followed, for
  each child in document order, by the child's rendered form and then the child's tail.
  The text and tail segments are never reordered: for every node, the kept text, in
  document order, is a subsequence of the rendering; it holds the text of the node and the
  tail of every child, and it is all the text of the node when no descendant is
  suppressed, a list or a line break with text.
\<close>

theorem RenderInline_in_document_order:
  "RenderInline e =
     str_of (etext e) @ concat (map (\<lambda>c. rendered c @ str_of (tail c)) (children e))
   \<and> subseq (kept e) (RenderInline e)
   \<and> kept e = str_of (etext e) @ concat (map (\<lambda>c. kept_child c @ str_of (tail c)) (children e))
   \<and> (list_all inline_markup (iter_list (children e)) \<longrightarrow> kept e = concat (itertext e))"
  using RenderInline_eq[of e] kept_subseq[of e] kept_eq[of e] kept_itertext(1)[of e] by simp

theorem RenderInline_in_document_order_witness:
  "list_all inline_markup (iter_list (children inline_example))
   \<and> RenderInline inline_example = ''a **b*d*e** c [f](u) g''
   \<and> kept inline_example = ''a bde c f g''
   \<and> subseq ''a bde c f g'' (RenderInline inline_example)
   \<and> RenderInline inline_list_example = ''a\<newline>- i\<newline>- **j**\<newline>bc''
   \<and> kept inline_list_example = ''aijbc''
   \<and> subseq ''aijbc'' (RenderInline inline_list_example)"
proof -
  have h: "list_all inline_markup (iter_list (children inline_example))" by code_simp
  have r1: "RenderInline inline_example = ''a **b*d*e** c [f](u) g''" by code_simp
  have r2: "RenderInline inline_list_example = ''a\<newline>- i\<newline>- **j**\<newline>bc''" by code_simp
  have i1: "concat (itertext inline_example) = ''a bde c f g''" by code_simp
  have k2: "kept inline_list_example = ''aijbc''" by code_simp
  from RenderInline_in_document_order [of inline_example] h
  have "kept inline_example = concat (itertext inline_example)"
    and s1: "subseq (kept inline_example) (RenderInline inline_example)"
    by blast+
  then have k1: "kept inline_example = ''a bde c f g''"
    by (simp only: i1)
  from RenderInline_in_document_order [of inline_list_example]
  have s2: "subseq (kept inline_list_example) (RenderInline inline_list_example)"
    by blast
  from s1 have s1': "subseq ''a bde c f g'' (RenderInline inline_example)"
    by (simp only: k1)
  from s2 have s2': "subseq ''aijbc'' (RenderInline inline_list_example)"
    by (simp only: k2)
  from h r1 k1 s1' r2 k2 s2' show ?thesis by (intro conjI)
qed

section \<open>The Parameters section of the card\<close>

lemma join_append:
  "xs \<noteq> [] \<Longrightarrow> ys \<noteq> [] \<Longrightarrow> join sep (xs @ ys) = join sep xs @ sep @ join sep ys"
proof (induction sep xs rule: join.induct)
  case (1 sep)
  then show ?case by simp
next
  case (2 sep x)
  then show ?case by (cases ys) simp_all
next
  case (3 sep x y ys')
  then show ?case by simp
qed

lemma split_lines_nonempty: "split_lines s \<noteq> []"
  by (induction s) (auto split: list.splits)

lemma split_lines_single: "CHR ''\<newline>'' \<notin> set s \<Longrightarrow> split_lines s = [s]"
  by (induction s) auto

lemma split_lines_append:
  "CHR ''\<newline>'' \<notin> set a \<Longrightarrow> split_lines (a @ CHR ''\<newline>'' # b) = a # split_lines b"
  by (induction a) auto

lemma split_lines_join:
  "xs \<noteq> [] \<Longrightarrow> list_all (\<lambda>x. CHR ''\<newline>'' \<notin> set x) xs
     \<Longrightarrow> split_lines (join ''\<newline>'' xs) = xs"
proof (induction "''\<newline>''" xs rule: join.induct)
  case 1
  then show ?case by simp
next
  case (2 x)
  then show ?case by (simp add: split_lines_single)
next
  case (3 x y ys)
  then have "split_lines (join ''\<newline>'' (y # ys)) = y # ys" by simp
  moreover have "CHR ''\<newline>'' \<notin> set x" using 3 by simp
  ultimately show ?case
    using split_lines_append[of x "join ''\<newline>'' (y # ys)"] by simp
qed

lemma parameter_bullet_no_newline:
  "CHR ''\<newline>'' \<notin> set (fst p) \<Longrightarrow> CHR ''\<newline>'' \<notin> set (snd p)
     \<Longrightarrow> CHR ''\<newline>'' \<notin> set (parameter_bullet p)"
  by (simp add: parameter_bullet_def)

lemma RenderMember_parts_sections:
  "RenderMember_parts m =
     ([''### `'' @ member_signature m @ ''`'', []] @ member_prose m)
     @ (if ExtractParameters m \<noteq> []
        then [''**Parameters**'', []] @ map parameter_bullet (ExtractParameters m) @ [[]]
        else [])
     @ returns_notes m"
proof -
  have b: "(\<lambda>(name, desc). ''- `'' @ name @ ''`: '' @ desc) = parameter_bullet"
    by (auto simp: parameter_bullet_def)
  show ?thesis
    unfolding RenderMember_parts_def Let_def b member_prose_def returns_notes_def
    by simp
qed

lemma join_parameters_section:
  assumes "bs \<noteq> []" and "A \<noteq> []"
  shows "join ''\<newline>'' (A @ ([''**Parameters**'', []] @ bs @ [[]]) @ R) =
     join ''\<newline>'' A @ ''\<newline>**Parameters**\<newline>\<newline>'' @ join ''\<newline>'' bs @ ''\<newline>''
       @ (if R = [] then [] else ''\<newline>'' @ join ''\<newline>'' R)"
proof -
  have 1: "join ''\<newline>'' ([] # R) = (if R = [] then [] else ''\<newline>'' @ join ''\<newline>'' R)"
    by (cases R) simp_all
  have 2: "join ''\<newline>'' (bs @ [] # R) = join ''\<newline>'' bs @ ''\<newline>'' @ join ''\<newline>'' ([] # R)"
    using assms(1) by (simp add: join_append)
  have 3: "join ''\<newline>'' (''**Parameters**'' # [] # bs @ [] # R)
      = ''**Parameters**'' @ ''\<newline>'' @ ''\<newline>'' @ join ''\<newline>'' (bs @ [] # R)"
    using assms(1) by (cases bs) simp_all
  have "join ''\<newline>'' (A @ (''**Parameters**'' # [] # bs @ [] # R))
      = join ''\<newline>'' A @ ''\<newline>'' @ join ''\<newline>'' (''**Parameters**'' # [] # bs @ [] # R)"
    using assms(2) by (simp add: join_append)
  then show ?thesis
    unfolding 3 2 1 by simp
qed

lemma RenderMember_parameters_section:
  assumes "ExtractParameters m \<noteq> []"
  shows "RenderMember m =
     WrapCard (strip
       (join ''\<newline>'' ([''### `'' @ member_signature m @ ''`'', []] @ member_prose m)
        @ ''\<newline>**Parameters**\<newline>\<newline>''
        @ join ''\<newline>'' (map parameter_bullet (ExtractParameters m))
        @ ''\<newline>''
        @ (if returns_notes m = [] then [] else ''\<newline>'' @ join ''\<newline>'' (returns_notes m))))"
proof -
  have bs: "map parameter_bullet (ExtractParameters m) \<noteq> []" using assms by simp
  have A: "[''### `'' @ member_signature m @ ''`'', []] @ member_prose m \<noteq> []" by simp
  have p: "RenderMember_parts m =
     ([''### `'' @ member_signature m @ ''`'', []] @ member_prose m)
     @ ([''**Parameters**'', []] @ map parameter_bullet (ExtractParameters m) @ [[]])
     @ returns_notes m"
    unfolding RenderMember_parts_sections[of m] if_P[OF assms] ..
  show ?thesis
    unfolding RenderMember_def p join_parameters_section[OF bs A] ..
qed

text \<open>
  C7, as the code has it: the parameters of a member are its formal parameters that have
  a name, in declaration order, each paired with the annotation matched by its name or
  with the empty string when there is none.  When there is at least one, the rendered
  card holds, after the heading and the prose, the Parameters heading and one entry
  \<open>- `name`: description\<close> for each of them, in that order, the entries separated by
  line breaks.  The entries are exactly the lines of that section when no name and no
  description holds a line break; a description of several lines is inserted as it is.
\<close>

theorem parameters_section:
  "ExtractParameters m =
     map (\<lambda>n. (n, case annotation_for m n of None \<Rightarrow> [] | Some x \<Rightarrow> x))
       (filter (\<lambda>n. n \<noteq> []) (map param_name (findall m ''param'')))
   \<and> (ExtractParameters m \<noteq> [] \<longrightarrow>
        RenderMember m =
          WrapCard (strip
            (join ''\<newline>'' ([''### `'' @ member_signature m @ ''`'', []] @ member_prose m)
             @ ''\<newline>**Parameters**\<newline>\<newline>''
             @ join ''\<newline>'' (map parameter_bullet (ExtractParameters m))
             @ ''\<newline>''
             @ (if returns_notes m = [] then []
                else ''\<newline>'' @ join ''\<newline>'' (returns_notes m)))))
   \<and> (ExtractParameters m \<noteq> []
        \<and> list_all (\<lambda>p. CHR ''\<newline>'' \<notin> set (fst p) \<and> CHR ''\<newline>'' \<notin> set (snd p))
             (ExtractParameters m) \<longrightarrow>
        split_lines (join ''\<newline>'' (map parameter_bullet (ExtractParameters m)))
          = map parameter_bullet (ExtractParameters m))"
proof (intro conjI impI)
  show "ExtractParameters m =
     map (\<lambda>n. (n, case annotation_for m n of None \<Rightarrow> [] | Some x \<Rightarrow> x))
       (filter (\<lambda>n. n \<noteq> []) (map param_name (findall m ''param'')))"
    by (rule ExtractParameters_eq)
next
  assume "ExtractParameters m \<noteq> []"
  then show "RenderMember m =
          WrapCard (strip
            (join ''\<newline>'' ([''### `'' @ member_signature m @ ''`'', []] @ member_prose m)
             @ ''\<newline>**Parameters**\<newline>\<newline>''
             @ join ''\<newline>'' (map parameter_bullet (ExtractParameters m))
             @ ''\<newline>''
             @ (if returns_notes m = [] then []
                else ''\<newline>'' @ join ''\<newline>'' (returns_notes m))))"
    by (rule RenderMember_parameters_section)
next
  assume a: "ExtractParameters m \<noteq> []
        \<and> list_all (\<lambda>p. CHR ''\<newline>'' \<notin> set (fst p) \<and> CHR ''\<newline>'' \<notin> set (snd p))
             (ExtractParameters m)"
  then have "map parameter_bullet (ExtractParameters m) \<noteq> []" by simp
  moreover from a have "list_all (\<lambda>x. CHR ''\<newline>'' \<notin> set x)
      (map parameter_bullet (ExtractParameters m))"
    by (simp add: list_all_iff parameter_bullet_no_newline)
  ultimately show "split_lines (join ''\<newline>'' (map parameter_bullet (ExtractParameters m)))
          = map parameter_bullet (ExtractParameters m)"
    by (rule split_lines_join)
qed

theorem parameters_section_witness:
  "ExtractParameters member_spin = [(''n'', ''count''), (''m'', [])]
   \<and> list_all (\<lambda>p. CHR ''\<newline>'' \<notin> set (fst p) \<and> CHR ''\<newline>'' \<notin> set (snd p))
        (ExtractParameters member_spin)
   \<and> RenderMember member_spin =
       ''<div class=\"snapi-api-card\" markdown=\"1\">\<newline>### `Spin`\<newline>\<newline>**Parameters**\<newline>\<newline>- `n`: count\<newline>- `m`:\<newline></div>''
   \<and> split_lines (join ''\<newline>'' (map parameter_bullet (ExtractParameters member_spin)))
       = [''- `n`: count'', ''- `m`: '']"
proof -
  have e: "ExtractParameters member_spin = [(''n'', ''count''), (''m'', [])]"
    by code_simp
  have n: "ExtractParameters member_spin \<noteq> []"
    by (simp add: e)
  have l: "list_all (\<lambda>p. CHR ''\<newline>'' \<notin> set (fst p) \<and> CHR ''\<newline>'' \<notin> set (snd p))
        (ExtractParameters member_spin)"
    by (simp add: e)
  have b: "map parameter_bullet [(''n'', ''count''), (''m'', [])] = [''- `n`: count'', ''- `m`: '']"
    by (simp add: parameter_bullet_def)
  have c: "WrapCard (strip
            (join ''\<newline>'' ([''### `'' @ member_signature member_spin @ ''`'', []] @ member_prose member_spin)
             @ ''\<newline>**Parameters**\<newline>\<newline>''
             @ join ''\<newline>'' (map parameter_bullet [(''n'', ''count''), (''m'', [])])
             @ ''\<newline>''
             @ (if returns_notes member_spin = [] then []
                else ''\<newline>'' @ join ''\<newline>'' (returns_notes member_spin))))
      = ''<div class=\"snapi-api-card\" markdown=\"1\">\<newline>### `Spin`\<newline>\<newline>**Parameters**\<newline>\<newline>- `n`: count\<newline>- `m`:\<newline></div>''"
    by code_simp
  from parameters_section [of member_spin] n l
  have rm: "RenderMember member_spin =
          WrapCard (strip
            (join ''\<newline>'' ([''### `'' @ member_signature member_spin @ ''`'', []] @ member_prose member_spin)
             @ ''\<newline>**Parameters**\<newline>\<newline>''
             @ join ''\<newline>'' (map parameter_bullet (ExtractParameters member_spin))
             @ ''\<newline>''
             @ (if returns_notes member_spin = [] then []
                else ''\<newline>'' @ join ''\<newline>'' (returns_notes member_spin))))"
    and s: "split_lines (join ''\<newline>'' (map parameter_bullet (ExtractParameters member_spin)))
          = map parameter_bullet (ExtractParameters member_spin)"
    by blast+
  from rm have r: "RenderMember member_spin =
       ''<div class=\"snapi-api-card\" markdown=\"1\">\<newline>### `Spin`\<newline>\<newline>**Parameters**\<newline>\<newline>- `n`: count\<newline>- `m`:\<newline></div>''"
    unfolding e c .
  from s have s': "split_lines (join ''\<newline>'' (map parameter_bullet (ExtractParameters member_spin)))
       = [''- `n`: count'', ''- `m`: '']"
    unfolding e b .
  from e l r s' show ?thesis by (intro conjI)
qed

text \<open>
  C7 as stated fails on the rendered list: a single parameter whose description holds a
  text and a two-item list is rendered with three bullet lines.
\<close>

theorem parameters_section_counterexample:
  "map fst (ExtractParameters member_listdesc) = [''n'']
   \<and> RenderMember member_listdesc =
       ''<div class=\"snapi-api-card\" markdown=\"1\">\<newline>### `f`\<newline>\<newline>**Parameters**\<newline>\<newline>- `n`: x\<newline>- i\<newline>- j\<newline></div>''
   \<and> bullet_lines (RenderMember member_listdesc) = [''- `n`: x'', ''- i'', ''- j'']"
proof -
  have a: "map fst (ExtractParameters member_listdesc) = [''n'']"
    by code_simp
  have b: "RenderMember member_listdesc =
       ''<div class=\"snapi-api-card\" markdown=\"1\">\<newline>### `f`\<newline>\<newline>**Parameters**\<newline>\<newline>- `n`: x\<newline>- i\<newline>- j\<newline></div>''"
    by code_simp
  have c: "bullet_lines
       ''<div class=\"snapi-api-card\" markdown=\"1\">\<newline>### `f`\<newline>\<newline>**Parameters**\<newline>\<newline>- `n`: x\<newline>- i\<newline>- j\<newline></div>''
      = [''- `n`: x'', ''- i'', ''- j'']"
    by code_simp
  from a b c show ?thesis by (simp only: simp_thms)
qed

section \<open>Unrecognized kinds in the description and the card\<close>













end
